theory Spec2Isabelle
  imports Complex_Main "HOL-Library.Log_Nat"
begin

section \<open>Detection post-processing of \<^verbatim>\<open>src/popup/popup.js\<close>\<close>

text \<open>
  The popup runs a YOLO-style detector on a page image and turns the raw output tensor
  into page-region annotations: \<^verbatim>\<open>preprocess\<close> pads and resizes the image,
  \<^verbatim>\<open>detect\<close> decodes boxes and class scores and runs non-maximum suppression,
  \<^verbatim>\<open>renderBoxes\<close> rescales the surviving boxes to the original image and attaches
  the block type of each class.

  Tensors are those of TensorFlow.js: a shape and a flat row-major buffer (what
  \<^verbatim>\<open>dataSync()\<close> returns). Tensor entries are kept polymorphic wherever the code only
  adds, subtracts, multiplies, divides or compares them, so that the statements hold for any
  arithmetic with these operations; concrete runs use exact rationals, and the rounding of
  JavaScript numbers is written out where a statement depends on it (the padding ratios).
\<close>

subsection \<open>Tensors\<close>

record 'a tensor =
  shape :: "nat list"
  data :: "'a list"

text \<open>All multi-indices of a shape, in row-major order (the order of the flat buffer).\<close>

fun indices :: "nat list \<Rightarrow> nat list list" where
  "indices [] = [[]]"
| "indices (n # ns) = concat (map (\<lambda>i. map ((#) i) (indices ns)) [0..<n])"

text \<open>The position of a multi-index in the flat buffer.\<close>

fun offset :: "nat list \<Rightarrow> nat list \<Rightarrow> nat" where
  "offset (n # ns) (i # is) = i * prod_list ns + offset ns is"
| "offset _ _ = 0"

definition valid :: "nat list \<Rightarrow> nat list \<Rightarrow> bool" where
  "valid sh ix = list_all2 (<) ix sh"

definition wellformed :: "'a tensor \<Rightarrow> bool" where
  "wellformed t = (length (data t) = prod_list (shape t))"

definition elem :: "'a tensor \<Rightarrow> nat list \<Rightarrow> 'a" where
  "elem t ix = data t ! offset (shape t) ix"

text \<open>The tensor of a given shape whose entry at every multi-index is given by a function.\<close>

definition tabulate :: "nat list \<Rightarrow> (nat list \<Rightarrow> 'a) \<Rightarrow> 'a tensor" where
  "tabulate sh f = \<lparr>shape = sh, data = map f (indices sh)\<rparr>"

subsection \<open>The TensorFlow.js operations that \<^verbatim>\<open>preprocess\<close> and \<^verbatim>\<open>detect\<close> call\<close>

text \<open>
  \<^verbatim>\<open>t.transpose(perm)\<close>: axis \<open>k\<close> of the result is axis \<open>perm ! k\<close> of \<open>t\<close>, so the
  entry at \<open>ix\<close> is the entry of \<open>t\<close> whose coordinate on axis \<open>d\<close> is \<open>ix ! k\<close> for the
  \<open>k\<close> with \<open>perm ! k = d\<close>.
\<close>

definition tf_transpose :: "'a tensor \<Rightarrow> nat list \<Rightarrow> 'a tensor" where
  "tf_transpose t perm =
     tabulate (map ((!) (shape t)) perm)
       (\<lambda>ix. elem t (map (\<lambda>d. ix ! length (takeWhile (\<lambda>p. p \<noteq> d) perm)) [0..<length perm]))"

text \<open>
  \<^verbatim>\<open>t.slice(begin, size)\<close>: a size of \<open>-1\<close> takes the rest of the axis.
\<close>

definition tf_slice :: "'a tensor \<Rightarrow> nat list \<Rightarrow> int list \<Rightarrow> 'a tensor" where
  "tf_slice t start sz =
     tabulate (map (\<lambda>(n, b, s). if s < 0 then n - b else nat s) (zip (shape t) (zip start sz)))
       (\<lambda>ix. elem t (map2 (+) start ix))"

text \<open>
  \<^verbatim>\<open>tf.sub\<close>, \<^verbatim>\<open>tf.add\<close> on tensors of one shape, and \<^verbatim>\<open>tf.div\<close> by a scalar, are
  entrywise.
\<close>

definition tf_sub :: "'a::minus tensor \<Rightarrow> 'a tensor \<Rightarrow> 'a tensor" where
  "tf_sub a b = \<lparr>shape = shape a, data = map2 (-) (data a) (data b)\<rparr>"

definition tf_add :: "'a::plus tensor \<Rightarrow> 'a tensor \<Rightarrow> 'a tensor" where
  "tf_add a b = \<lparr>shape = shape a, data = map2 (+) (data a) (data b)\<rparr>"

definition tf_div :: "'a::inverse tensor \<Rightarrow> 'a \<Rightarrow> 'a tensor" where
  "tf_div a c = \<lparr>shape = shape a, data = map (\<lambda>x. x / c) (data a)\<rparr>"

text \<open>
  \<^verbatim>\<open>tf.concat(ts, axis)\<close>: coordinate \<open>k\<close> on the axis falls into the tensor found by
  walking over the sizes of the parts.
\<close>

fun locate :: "nat list \<Rightarrow> nat \<Rightarrow> nat \<times> nat" where
  "locate [] k = (0, k)"
| "locate (s # ss) k =
     (if k < s then (0, k) else (case locate ss (k - s) of (j, r) \<Rightarrow> (Suc j, r)))"

definition tf_concat :: "'a tensor list \<Rightarrow> nat \<Rightarrow> 'a tensor" where
  "tf_concat ts axis =
     (let sizes = map (\<lambda>t. shape t ! axis) ts in
      tabulate ((shape (hd ts))[axis := sum_list sizes])
        (\<lambda>ix. case locate sizes (ix ! axis) of (j, r) \<Rightarrow> elem (ts ! j) (ix[axis := r])))"

text \<open>
  \<^verbatim>\<open>t.squeeze()\<close> drops every axis of size 1 and keeps the buffer;
  \<^verbatim>\<open>t.squeeze(axis)\<close> drops that one axis, whose size must be 1.

  TensorFlow.js raises when shapes do not fit (a permutation of the wrong length, a slice
  beyond an axis, a squeeze of an axis of another size than 1). None of this happens on a
  model output of the contracted shape \<open>[1, 4 + C, N]\<close>, which is what the statements
  below are about; the source itself has no check of the shape.
\<close>

definition tf_squeeze :: "'a tensor \<Rightarrow> 'a tensor" where
  "tf_squeeze t = \<lparr>shape = filter (\<lambda>n. n \<noteq> 1) (shape t), data = data t\<rparr>"

definition tf_squeeze_axis :: "'a tensor \<Rightarrow> nat \<Rightarrow> 'a tensor" where
  "tf_squeeze_axis t axis =
     \<lparr>shape = take axis (shape t) @ drop (Suc axis) (shape t), data = data t\<rparr>"

text \<open>Row \<open>i\<close> of a rank-2 tensor, and the reductions \<^verbatim>\<open>t.max(1)\<close>, \<^verbatim>\<open>t.argMax(1)\<close> along its rows.\<close>

definition row :: "'a tensor \<Rightarrow> nat \<Rightarrow> 'a list" where
  "row t i = map (\<lambda>j. elem t [i, j]) [0..<shape t ! 1]"

definition max_list :: "'a::linorder list \<Rightarrow> 'a" where
  "max_list xs = fold max (tl xs) (hd xs)"

definition tf_max :: "'a::linorder tensor \<Rightarrow> 'a tensor" where
  "tf_max t = tabulate [shape t ! 0] (\<lambda>ix. max_list (row t (ix ! 0)))"

text \<open>
  Modelled from the spec: the tie-breaking of \<^verbatim>\<open>argMax\<close>, a kernel of TensorFlow.js that
  is not part of this repository. The spec: ``\<^verbatim>\<open>classId = argmax\<close> index (ties broken by
  lowest index --- first-seen wins)'': the position of the first entry equal to the maximum.
\<close>

definition argmax_list :: "'a::linorder list \<Rightarrow> nat" where
  "argmax_list xs = length (takeWhile (\<lambda>v. v \<noteq> max_list xs) xs)"

text \<open>
  Modelled from the spec: \<^verbatim>\<open>t.argMax(1)\<close>, the index chosen by \<open>argmax_list\<close> in
  every row.
\<close>

definition tf_argMax :: "'a::linorder tensor \<Rightarrow> nat tensor" where
  "tf_argMax t = tabulate [shape t ! 0] (\<lambda>ix. argmax_list (row t (ix ! 0)))"

subsection \<open>JavaScript numbers in \<^verbatim>\<open>preprocess\<close>\<close>

text \<open>
  The padding ratios are quotients of JavaScript numbers, that is IEEE 754 double-precision
  floats: the exact quotient rounded to the nearest number with a 53-bit significand, ties
  to the even significand. \<open>round_double\<close> does this rounding on the rationals; exponent
  overflow and subnormal numbers do not arise for quotients of image dimensions and are not
  modelled. \<open>ilog2 q\<close> is the exponent \<open>\<lfloor>log\<^sub>2 q\<rfloor>\<close> of a positive rational.
\<close>

definition round_even :: "rat \<Rightarrow> int" where
  "round_even x =
     (let f = \<lfloor>x\<rfloor>; d = x - of_int f
      in if d < 1/2 then f else if 1/2 < d then f + 1 else if even f then f else f + 1)"

definition pow2 :: "int \<Rightarrow> rat" where
  "pow2 e = (if 0 \<le> e then 2 ^ nat e else 1 / 2 ^ nat (- e))"

definition ilog2 :: "rat \<Rightarrow> int" where
  "ilog2 q = (if 1 \<le> q then int (floorlog 2 (nat \<lfloor>q\<rfloor>)) - 1
              else - int (floorlog 2 (nat (\<lceil>1 / q\<rceil> - 1))))"

definition round_double :: "rat \<Rightarrow> rat" where
  "round_double q =
     (if q = 0 then 0
      else let a = \<bar>q\<bar>; e = ilog2 a - 52
           in sgn q * of_int (round_even (a / pow2 e)) * pow2 e)"

text \<open>
  A number is finite, infinite or not a number. Image dimensions are non-negative integers
  below \<open>2\<^sup>5\<^sup>3\<close>, which are doubles themselves; their quotient \<^verbatim>\<open>a / b\<close> is
  \<^verbatim>\<open>Infinity\<close> when only \<open>b\<close> is zero and \<^verbatim>\<open>NaN\<close> when both are, and the product
  \<^verbatim>\<open>x * n\<close> of a number and a dimension is rounded again.
\<close>

datatype number = Fin rat | Infinity | NaN

definition js_div :: "nat \<Rightarrow> nat \<Rightarrow> number" where
  "js_div a b =
     (if b = 0 then (if a = 0 then NaN else Infinity)
      else Fin (round_double (of_nat a / of_nat b)))"

fun js_times :: "number \<Rightarrow> nat \<Rightarrow> number" where
  "js_times (Fin q) n = Fin (round_double (q * of_nat n))"
| "js_times Infinity n = (if n = 0 then NaN else Infinity)"
| "js_times NaN n = NaN"

subsection \<open>\<^verbatim>\<open>preprocess\<close>\<close>

text \<open>
  \<^verbatim>\<open>tf.browser.fromPixels(source)\<close> is the first call of \<^verbatim>\<open>preprocess\<close>. It is
  a function of TensorFlow.js and a parameter here: for the source it is given it either
  raises or returns the pixel tensor, of shape \<open>[height, width, 3]\<close>. \<^verbatim>\<open>preprocess\<close>
  has no \<^verbatim>\<open>try\<close>, so what \<^verbatim>\<open>fromPixels\<close> raises leaves \<^verbatim>\<open>preprocess\<close> (and
  \<^verbatim>\<open>detect\<close>, which has none either).

  For pixel data (a size and the pixels row by row, three channels each), the pixel tensor
  is the data itself.
\<close>

record 'a image =
  height :: nat
  width :: nat
  pixels :: "'a list"

definition pixel_tensor :: "'a image \<Rightarrow> 'a tensor" where
  "pixel_tensor source = \<lparr>shape = [height source, width source, 3], data = pixels source\<rparr>"

text \<open>
  \<^verbatim>\<open>t.pad(paddings)\<close>: on every axis \<open>lo\<close> entries are added in front and \<open>hi\<close>
  entries behind, all equal to the constant (0 by default).
\<close>

definition tf_pad :: "'a tensor \<Rightarrow> (nat \<times> nat) list \<Rightarrow> 'a \<Rightarrow> 'a tensor" where
  "tf_pad t paddings c =
     tabulate (map (\<lambda>(n, lo, hi). lo + n + hi) (zip (shape t) paddings))
       (\<lambda>ix. if list_all (\<lambda>(i, n, lo, hi). lo \<le> i \<and> i < lo + n)
                  (zip ix (zip (shape t) paddings))
              then elem t (map2 (\<lambda>i (lo, hi). i - lo) ix paddings)
              else c)"

definition tf_expandDims :: "'a tensor \<Rightarrow> 'a tensor" where
  "tf_expandDims t = \<lparr>shape = 1 # shape t, data = data t\<rparr>"

text \<open>
  \<^verbatim>\<open>
  const img = tf.browser.fromPixels(source);
  const [h, w] = img.shape.slice(0, 2);
  const maxSize = Math.max(w, h);
  const imgPadded = img.pad([[0, maxSize - h], [0, maxSize - w], [0, 0]]);
  xRatio = maxSize / w;
  yRatio = maxSize / h;
  return tf.image.resizeBilinear(imgPadded, [modelWidth, modelHeight]).div(255.0).expandDims(0);
  ...
  return [input, xRatio, yRatio];
  \<close>
  The bilinear resize of TensorFlow.js is a parameter too: no statement depends on the
  pixels it computes. \<open>imgPadded\<close> is the local of that name, as a function of \<open>img\<close>.
\<close>

definition imgPadded :: "'a::zero tensor \<Rightarrow> 'a tensor" where
  "imgPadded img =
     (let h = shape img ! 0; w = shape img ! 1;
          maxSize = max w h
      in tf_pad img [(0, maxSize - h), (0, maxSize - w), (0, 0)] 0)"

definition preprocess ::
  "('s \<Rightarrow> 'e + 'a tensor) \<Rightarrow> ('a tensor \<Rightarrow> nat list \<Rightarrow> 'a tensor) \<Rightarrow>
     's \<Rightarrow> nat \<Rightarrow> nat \<Rightarrow> 'e + ('a::{zero,inverse,numeral} tensor \<times> number \<times> number)" where
  "preprocess fromPixels resizeBilinear source modelWidth modelHeight =
     (case fromPixels source of
        Inl e \<Rightarrow> Inl e
      | Inr img \<Rightarrow>
          (let h = shape img ! 0; w = shape img ! 1;
               maxSize = max w h;
               xRatio = js_div maxSize w;
               yRatio = js_div maxSize h
           in Inr (tf_expandDims
                     (tf_div (resizeBilinear (imgPadded img) [modelWidth, modelHeight]) 255),
                   xRatio, yRatio)))"

text \<open>
  Pixel data 11 wide and 15 high, square pixel data, and pixel data of width 0; a
  \<^verbatim>\<open>fromPixels\<close> that returns the pixel tensor of any pixel data, and one that raises
  for pixel data with a zero side; and a stand-in for the resize that returns a tensor of
  the requested size.
\<close>

definition example_image :: "rat image" where
  "example_image = \<lparr>height = 15, width = 11, pixels = replicate (15 * 11 * 3) 255\<rparr>"

definition square_image :: "rat image" where
  "square_image = \<lparr>height = 2, width = 2, pixels = replicate (2 * 2 * 3) 255\<rparr>"

definition empty_image :: "rat image" where
  "empty_image = \<lparr>height = 2, width = 0, pixels = []\<rparr>"

definition accepting_fromPixels :: "rat image \<Rightarrow> string + rat tensor" where
  "accepting_fromPixels source = Inr (pixel_tensor source)"

definition rejecting_fromPixels :: "rat image \<Rightarrow> string + rat tensor" where
  "rejecting_fromPixels source =
     (if height source = 0 \<or> width source = 0 then Inl ''fromPixels''
      else Inr (pixel_tensor source))"

definition example_resize :: "rat tensor \<Rightarrow> nat list \<Rightarrow> rat tensor" where
  "example_resize t sz = tabulate (sz @ [3]) (\<lambda>ix. elem t [0, 0, ix ! 2])"

subsection \<open>\<^verbatim>\<open>detect\<close>: decoding boxes and scores\<close>

text \<open>
  \<^verbatim>\<open>
  const transRes = res.transpose([0, 2, 1]);
  const boxes = tf.tidy(() => {
    const w = transRes.slice([0, 0, 2], [-1, -1, 1]);
    const h = transRes.slice([0, 0, 3], [-1, -1, 1]);
    const x1 = tf.sub(transRes.slice([0, 0, 0], [-1, -1, 1]), tf.div(w, 2));
    const y1 = tf.sub(transRes.slice([0, 0, 1], [-1, -1, 1]), tf.div(h, 2));
    return tf.concat([y1, x1, tf.add(y1, h), tf.add(x1, w)], 2).squeeze();
  });
  const [scores, classes] = tf.tidy(() => {
    const rawScores = transRes.slice([0, 0, 4], [-1, -1, numClass]).squeeze(0);
    return [rawScores.max(1), rawScores.argMax(1)];
  });
  \<close>
\<close>

definition detect_boxes :: "'a::{plus,minus,inverse,numeral} tensor \<Rightarrow> 'a tensor" where
  "detect_boxes transRes =
     (let w = tf_slice transRes [0, 0, 2] [-1, -1, 1];
          h = tf_slice transRes [0, 0, 3] [-1, -1, 1];
          x1 = tf_sub (tf_slice transRes [0, 0, 0] [-1, -1, 1]) (tf_div w 2);
          y1 = tf_sub (tf_slice transRes [0, 0, 1] [-1, -1, 1]) (tf_div h 2)
      in tf_squeeze (tf_concat [y1, x1, tf_add y1 h, tf_add x1 w] 2))"

definition detect_scores :: "nat \<Rightarrow> 'a::linorder tensor \<Rightarrow> 'a tensor \<times> nat tensor" where
  "detect_scores numClass transRes =
     (let rawScores = tf_squeeze_axis (tf_slice transRes [0, 0, 4] [-1, -1, int numClass]) 0
      in (tf_max rawScores, tf_argMax rawScores))"

text \<open>
  A model output for two classes and three candidate detections, attribute-major as the
  model returns it (shape \<open>[1, 4 + 2, 3]\<close>): the rows are centre x, centre y, width, height
  and the two class scores. The third detection has two equal class scores.
\<close>

definition example_out :: "rat tensor" where
  "example_out = \<lparr>shape = [1, 6, 3],
     data = [50, 100, 10,   50, 100, 10,   20, 40, 4,   10, 40, 4,
             9/10, 1/10, 1/2,   1/10, 3/10, 1/2]\<rparr>"

subsection \<open>\<^verbatim>\<open>renderBoxes\<close>\<close>

text \<open>
  The module-level variables that \<^verbatim>\<open>renderBoxes\<close> reads: the size of the original
  image, the label list (\<^verbatim>\<open>labels.json\<close>) and the label-to-type mapping filled by
  \<^verbatim>\<open>createTypes\<close>. The mapping is a plain object (\<^verbatim>\<open>let typeMappings = {}\<close>);
  the map holds its own properties, the entries that \<^verbatim>\<open>createTypes\<close> has stored.
\<close>

record ('a, 't) globals =
  ImageOriginalWidth :: 'a
  ImageOriginalHeight :: 'a
  labels :: "string list"
  typeMappings :: "string \<rightharpoonup> 't"

text \<open>
  Reading a property of a plain object, \<^verbatim>\<open>obj[key]\<close>, looks among the own properties
  first and then in \<^verbatim>\<open>Object.prototype\<close>, whose properties every plain object
  inherits; only a key found in neither reads as \<^verbatim>\<open>undefined\<close>. So
  \<^verbatim>\<open>typeMappings["constructor"]\<close> is the function \<^verbatim>\<open>Object\<close> when no type of that
  name has been stored. An inherited property is recorded by its name.
\<close>

definition Object_prototype :: "string list" where
  "Object_prototype =
     [''constructor'', ''__defineGetter__'', ''__defineSetter__'', ''hasOwnProperty'',
      ''__lookupGetter__'', ''__lookupSetter__'', ''isPrototypeOf'', ''propertyIsEnumerable'',
      ''toString'', ''valueOf'', ''__proto__'', ''toLocaleString'']"

datatype 't property = Own 't | Inherited string | Undefined

definition js_get :: "(string \<rightharpoonup> 't) \<Rightarrow> string \<Rightarrow> 't property" where
  "js_get obj key =
     (case obj key of
        Some v \<Rightarrow> Own v
      | None \<Rightarrow> if key \<in> set Object_prototype then Inherited key else Undefined)"

text \<open>
  An emitted annotation: the polygon (four \<open>[x, y]\<close> pairs) and the block type. A
  coordinate is \<open>None\<close> when it is not a number (it was computed from a missing array
  entry).
\<close>

record ('a, 't) block =
  box :: "('a option \<times> 'a option) list"
  typology :: "'t property"

text \<open>
  JavaScript array reads never fail: \<^verbatim>\<open>xs.slice(a, b)\<close> stops at the end of the array,
  \<^verbatim>\<open>xs[k]\<close> is \<^verbatim>\<open>undefined\<close> out of range, arithmetic on \<^verbatim>\<open>undefined\<close> gives
  \<^verbatim>\<open>NaN\<close>, and \<^verbatim>\<open>undefined\<close> used as a property name is the string
  \<^verbatim>\<open>"undefined"\<close>.
\<close>

definition js_slice :: "'a list \<Rightarrow> nat \<Rightarrow> nat \<Rightarrow> 'a list" where
  "js_slice xs a b = take (b - a) (drop a xs)"

definition js_nth :: "'a list \<Rightarrow> nat \<Rightarrow> 'a option" where
  "js_nth xs k = (if k < length xs then Some (xs ! k) else None)"

definition js_mul :: "'a::times option \<Rightarrow> 'a \<Rightarrow> 'a option" where
  "js_mul x s = map_option (\<lambda>v. v * s) x"

definition js_sub :: "'a::minus option \<Rightarrow> 'a option \<Rightarrow> 'a option" where
  "js_sub x y = (case (x, y) of (Some a, Some b) \<Rightarrow> Some (a - b) | _ \<Rightarrow> None)"

definition property_key :: "string list \<Rightarrow> int option \<Rightarrow> string" where
  "property_key ls c =
     (case c of
        None \<Rightarrow> ''undefined''
      | Some k \<Rightarrow> if 0 \<le> k \<and> nat k < length ls then ls ! nat k else ''undefined'')"

text \<open>
  \<^verbatim>\<open>
  for (let i = 0; i < scores_data.length; ++i) {
    const score = (scores_data[i] * 100).toFixed(1);
    let [y1, x1, y2, x2] = boxes_data.slice(i * 4, (i + 1) * 4);
    x1 *= ratios[0]*(ImageOriginalWidth / modelWidth);
    x2 *= ratios[0]*(ImageOriginalWidth / modelWidth);
    y1 *= ratios[1]*(ImageOriginalHeight / modelHeight);
    y2 *= ratios[1]*(ImageOriginalHeight / modelHeight);
    const width = x2 - x1;
    const height = y2 - y1;
    boxes.push({
      box: [[x1, y1], [x2, y1], [x2, y2], [x1, y2]],
      typology: typeMappings[labels[classes_data[i]]],
    });
  }
  return boxes;
  \<close>
  The locals \<^verbatim>\<open>score\<close> (here before its formatting as a string), \<^verbatim>\<open>width\<close> and
  \<^verbatim>\<open>height\<close> are computed and not used. The loop that pushes one record per index is
  a map over the indices \<open>0 ..< scores_data.length\<close>; \<open>renderBox\<close> is its body.
\<close>

definition renderBox ::
  "('a::{times,minus,inverse,numeral}, 't) globals \<Rightarrow> 'a list \<Rightarrow> 'a list \<Rightarrow> int list \<Rightarrow>
     'a \<times> 'a \<Rightarrow> 'a \<Rightarrow> 'a \<Rightarrow> nat \<Rightarrow> ('a, 't) block" where
  "renderBox g boxes_data scores_data classes_data ratios modelWidth modelHeight i =
     (let score = js_mul (js_nth scores_data i) 100;
          b = js_slice boxes_data (i * 4) ((i + 1) * 4);
          y1 = js_nth b 0; x1 = js_nth b 1; y2 = js_nth b 2; x2 = js_nth b 3;
          x1 = js_mul x1 (fst ratios * (ImageOriginalWidth g / modelWidth));
          x2 = js_mul x2 (fst ratios * (ImageOriginalWidth g / modelWidth));
          y1 = js_mul y1 (snd ratios * (ImageOriginalHeight g / modelHeight));
          y2 = js_mul y2 (snd ratios * (ImageOriginalHeight g / modelHeight));
          width = js_sub x2 x1;
          height = js_sub y2 y1
      in \<lparr>box = [(x1, y1), (x2, y1), (x2, y2), (x1, y2)],
          typology = js_get (typeMappings g) (property_key (labels g) (js_nth classes_data i))\<rparr>)"

definition renderBoxes ::
  "('a::{times,minus,inverse,numeral}, 't) globals \<Rightarrow> 'a list \<Rightarrow> 'a list \<Rightarrow> int list \<Rightarrow>
     'a \<times> 'a \<Rightarrow> 'a \<Rightarrow> 'a \<Rightarrow> ('a, 't) block list" where
  "renderBoxes g boxes_data scores_data classes_data ratios modelWidth modelHeight =
     map (renderBox g boxes_data scores_data classes_data ratios modelWidth modelHeight)
       [0..<length scores_data]"

text \<open>
  A session with the labels \<open>a, b\<close> in which only \<open>a\<close> has been given a type, for an
  original image of 200 by 200 pixels.
\<close>

definition example_globals :: "(rat, nat) globals" where
  "example_globals = \<lparr>ImageOriginalWidth = 200, ImageOriginalHeight = 200,
     labels = [''a'', ''b''], typeMappings = [''a'' \<mapsto> 7]\<rparr>"

text \<open>The same session with the labels \<open>a, constructor\<close>.\<close>

definition inherited_globals :: "(rat, nat) globals" where
  "inherited_globals = \<lparr>ImageOriginalWidth = 200, ImageOriginalHeight = 200,
     labels = [''a'', ''constructor''], typeMappings = [''a'' \<mapsto> 7]\<rparr>"

subsection \<open>The suppression stage\<close>

text \<open>
  \<^verbatim>\<open>const nms = await tf.image.nonMaxSuppressionAsync(boxes, scores, 500, 0.45, 0.2);\<close>

  The box of detection \<open>i\<close> is the four entries \<open>4 * i .. 4 * i + 3\<close> of the boxes buffer,
  in the order \<open>y1, x1, y2, x2\<close>.
\<close>

definition box_at :: "'a list \<Rightarrow> nat \<Rightarrow> 'a \<times> 'a \<times> 'a \<times> 'a" where
  "box_at bd i = (bd ! (4 * i), bd ! (4 * i + 1), bd ! (4 * i + 2), bd ! (4 * i + 3))"

text \<open>Modelled from the spec: the area of a box \<open>(y1, x1, y2, x2)\<close>.\<close>

definition area :: "'a::linordered_field \<times> 'a \<times> 'a \<times> 'a \<Rightarrow> 'a" where
  "area b = (case b of (y1, x1, y2, x2) \<Rightarrow> (y2 - y1) * (x2 - x1))"

text \<open>Modelled from the spec: the overlapping area of two boxes.\<close>

definition intersection :: "'a::linordered_field \<times> 'a \<times> 'a \<times> 'a \<Rightarrow> 'a \<times> 'a \<times> 'a \<times> 'a \<Rightarrow> 'a" where
  "intersection a b =
     (case (a, b) of ((ay1, ax1, ay2, ax2), (by1, bx1, by2, bx2)) \<Rightarrow>
        max 0 (min ay2 by2 - max ay1 by1) * max 0 (min ax2 bx2 - max ax1 bx1))"

text \<open>
  Modelled from the spec: intersection over union, which \<^verbatim>\<open>nonMaxSuppressionAsync\<close> of
  TensorFlow.js (not part of this repository) computes. The spec: ``ratio of overlapping
  area to union area between two boxes, range [0,1]''. A pair with an empty union has the
  ratio 0.
\<close>

definition iou :: "'a::linordered_field \<times> 'a \<times> 'a \<times> 'a \<Rightarrow> 'a \<times> 'a \<times> 'a \<times> 'a \<Rightarrow> 'a" where
  "iou a b =
     (let i = intersection a b; u = area a + area b - i
      in if u \<le> 0 then 0 else i / u)"

text \<open>
  Modelled from the spec: the greedy suppression of \<^verbatim>\<open>nonMaxSuppressionAsync\<close>
  (TensorFlow.js, not part of this repository). The spec: ``Sort candidate indices by
  descending score. Repeatedly select the highest-remaining-score box, emit it, then discard
  all remaining boxes whose Intersection-over-Union (IoU) with the selected box exceeds
  \<^verbatim>\<open>iouThreshold\<close>''; ``boxes with score below [\<^verbatim>\<open>scoreThreshold\<close>] are excluded'';
  ``selects a subset of at most \<^verbatim>\<open>maxOutputSize\<close> detections''; ``order = selection
  order, i.e., non-increasing score, ties by original index''.
\<close>

definition candidates :: "'a::linordered_field list \<Rightarrow> 'a \<Rightarrow> nat list" where
  "candidates scs scoreThreshold =
     sort_key (\<lambda>i. - (scs ! i)) (filter (\<lambda>i. scoreThreshold \<le> scs ! i) [0..<length scs])"

text \<open>
  Modelled from the spec: the selection loop, on the sorted candidates; it stops after
  \<^verbatim>\<open>maxOutputSize\<close> selections.
\<close>

fun greedy :: "'a::linordered_field \<Rightarrow> nat \<Rightarrow> 'a list \<Rightarrow> nat list \<Rightarrow> nat list" where
  "greedy iouThreshold 0 bd cs = []"
| "greedy iouThreshold (Suc m) bd [] = []"
| "greedy iouThreshold (Suc m) bd (c # cs) =
     c # greedy iouThreshold m bd
           (filter (\<lambda>j. \<not> iouThreshold < iou (box_at bd c) (box_at bd j)) cs)"

text \<open>
  Modelled from the spec: \<^verbatim>\<open>suppress(boxes, scores) -> indices\<close> with its three
  parameters, on the buffers of the two tensors.
\<close>

definition nonMaxSuppression ::
  "'a::linordered_field tensor \<Rightarrow> 'a tensor \<Rightarrow> nat \<Rightarrow> 'a \<Rightarrow> 'a \<Rightarrow> nat list" where
  "nonMaxSuppression boxes scores maxOutputSize iouThreshold scoreThreshold =
     greedy iouThreshold maxOutputSize (data boxes) (candidates (data scores) scoreThreshold)"

text \<open>The call in \<^verbatim>\<open>detect\<close>, with its three literal parameters.\<close>

definition detect_nms :: "'a::linordered_field tensor \<Rightarrow> 'a tensor \<Rightarrow> nat list" where
  "detect_nms boxes scores = nonMaxSuppression boxes scores 500 (45 / 100) (2 / 10)"

text \<open>
  Three boxes: the second overlaps the first (intersection 81, union 119), the third is
  far from both; and their scores under two scorings.
\<close>

definition example_boxes :: "rat tensor" where
  "example_boxes = \<lparr>shape = [3, 4],
     data = [0, 0, 10, 10,   1, 1, 11, 11,   20, 20, 30, 30]\<rparr>"

definition example_scores :: "rat tensor" where
  "example_scores = \<lparr>shape = [3], data = [9/10, 8/10, 1/10]\<rparr>"

definition example_scores' :: "rat tensor" where
  "example_scores' = \<lparr>shape = [3], data = [9/10, 1/10, 8/10]\<rparr>"

text \<open>The first box with the second, the first box with the third, and the scores 0.9 and 0.8.\<close>

definition pair_overlapping :: "rat tensor" where
  "pair_overlapping = \<lparr>shape = [2, 4], data = [0, 0, 10, 10,   1, 1, 11, 11]\<rparr>"

definition pair_apart :: "rat tensor" where
  "pair_apart = \<lparr>shape = [2, 4], data = [0, 0, 10, 10,   20, 20, 30, 30]\<rparr>"

definition pair_scores :: "rat tensor" where
  "pair_scores = \<lparr>shape = [2], data = [9/10, 8/10]\<rparr>"

subsection \<open>Tensor lifetimes in \<^verbatim>\<open>detect\<close>\<close>

text \<open>
  The TensorFlow.js engine keeps every tensor alive until it is disposed. Each operation
  allocates its result; a tensor allocated while a scope is open is tracked by the
  innermost scope. \<^verbatim>\<open>endScope(result)\<close> disposes the tensors its scope tracks, except
  the results, which pass to the enclosing scope; \<^verbatim>\<open>tf.tidy(f)\<close> is \<^verbatim>\<open>startScope\<close>,
  \<open>f\<close>, \<^verbatim>\<open>endScope\<close> of what \<open>f\<close> returns. The state is the list of live tensors, the
  stack of open scopes (innermost first) and the next tensor id.
\<close>

record engine =
  live :: "nat list"
  scopes :: "nat list list"
  fresh :: nat

definition alloc :: "engine \<Rightarrow> nat \<times> engine" where
  "alloc e =
     (fresh e,
      e\<lparr>live := fresh e # live e,
        scopes := (case scopes e of [] \<Rightarrow> [] | s # ss \<Rightarrow> (fresh e # s) # ss),
        fresh := Suc (fresh e)\<rparr>)"

fun ops :: "nat \<Rightarrow> engine \<Rightarrow> nat list \<times> engine" where
  "ops 0 e = ([], e)"
| "ops (Suc n) e =
     (case alloc e of (t, e1) \<Rightarrow> (case ops n e1 of (ts, e2) \<Rightarrow> (t # ts, e2)))"

definition startScope :: "engine \<Rightarrow> engine" where
  "startScope e = e\<lparr>scopes := [] # scopes e\<rparr>"

definition endScope :: "nat list \<Rightarrow> engine \<Rightarrow> engine" where
  "endScope result e =
     (case scopes e of
        [] \<Rightarrow> e
      | s # ss \<Rightarrow>
          e\<lparr>live := filter (\<lambda>t. t \<in> set result \<or> t \<notin> set s) (live e),
            scopes := (case ss of
                         [] \<Rightarrow> []
                       | p # ps \<Rightarrow> (filter (\<lambda>t. t \<in> set result) s @ p) # ps)\<rparr>)"

definition tidy :: "(engine \<Rightarrow> nat list \<times> engine) \<Rightarrow> engine \<Rightarrow> nat list \<times> engine" where
  "tidy f e = (case f (startScope e) of (result, e') \<Rightarrow> (result, endScope result e'))"

text \<open>
  The allocations of one call of \<^verbatim>\<open>detect\<close>, in the order of the source (the
  operations inside each \<^verbatim>\<open>tf.tidy\<close> are listed on the right; \<^verbatim>\<open>model.execute\<close>
  and the suppression count as one allocation each, that of their result):
  \<^verbatim>\<open>
  tf.engine().startScope();
  const [input, xRatio, yRatio] = preprocess(source, modelWidth, modelHeight);
      // tf.tidy: fromPixels, pad, resizeBilinear, div, expandDims
  const res = model.execute(input);
  const transRes = res.transpose([0, 2, 1]);
  const boxes = tf.tidy(...);              // 4 slices, 2 div, 2 sub, 2 add, concat, squeeze
  const [scores, classes] = tf.tidy(...);  // slice, squeeze, max, argMax
  const nms = await tf.image.nonMaxSuppressionAsync(...);
  const boxes_data = boxes.gather(nms, 0).dataSync();
  const scores_data = scores.gather(nms, 0).dataSync();
  const classes_data = classes.gather(nms, 0).dataSync();
  rendered_boxes = renderBoxes(...);
  return rendered_boxes;
  //tf.dispose([res, transRes, boxes, scores, classes, nms]); // clear memory
  //callback();
  //tf.engine().endScope(); // end of scoping
  \<close>
  The scope opened in the first line is not closed: the calls that would dispose the
  tensors and end the scope are commented out, behind the \<^verbatim>\<open>return\<close>.
\<close>

definition preprocess_tensors :: "engine \<Rightarrow> nat list \<times> engine" where
  "preprocess_tensors = tidy (\<lambda>e. case ops 5 e of (ts, e') \<Rightarrow> ([last ts], e'))"

definition detect_tensors :: "engine \<Rightarrow> engine" where
  "detect_tensors e0 =
     (let e1 = startScope e0;
          (input, e2) = preprocess_tensors e1;
          (res, e3) = alloc e2;
          (transRes, e4) = alloc e3;
          (boxes, e5) = tidy (\<lambda>e. case ops 12 e of (ts, e') \<Rightarrow> ([last ts], e')) e4;
          (scores_classes, e6) = tidy (\<lambda>e. case ops 4 e of (ts, e') \<Rightarrow> (drop 2 ts, e')) e5;
          (nms, e7) = alloc e6;
          (gathered, e8) = ops 3 e7
      in e8)"

text \<open>An engine that holds three tensors (the weights of the loaded model) and no open scope.\<close>

definition example_engine :: engine where
  "example_engine = \<lparr>live = [2, 1, 0], scopes = [], fresh = 3\<rparr>"

section \<open>Properties\<close>

subsection \<open>Tensor indexing\<close>

lemma length_concat_uniform:
  "(\<And>i. i < n \<Longrightarrow> length (f i) = m) \<Longrightarrow> length (concat (map f [0..<n])) = n * m"
  by (induction n) simp_all

lemma nth_concat_uniform:
  assumes "\<And>i. i < n \<Longrightarrow> length (f i) = m" and "i < n" and "j < m"
  shows "concat (map f [0..<n]) ! (i * m + j) = f i ! j"
  using assms
proof (induction n)
  case 0
  then show ?case by simp
next
  case (Suc n)
  have len: "length (concat (map f [0..<n])) = n * m"
    using Suc.prems(1) by (simp add: length_concat_uniform)
  show ?case
  proof (cases "i < n")
    case True
    then have "i * m + j < n * m"
      using Suc.prems(3)
      by (metis add.commute mult_Suc nat_add_left_cancel_less Suc_leI mult_le_mono1 add_less_le_mono)
    with True Suc len show ?thesis by (simp add: nth_append)
  next
    case False
    with Suc.prems have "i = n" by simp
    with len Suc.prems show ?thesis by (simp add: nth_append)
  qed
qed

lemma length_indices: "length (indices sh) = prod_list sh"
  by (induction sh) (simp_all add: length_concat_uniform)

lemma offset_less: "valid sh ix \<Longrightarrow> offset sh ix < prod_list sh"
  unfolding valid_def
proof (induction ix sh rule: list_all2_induct)
  case Nil
  then show ?case by simp
next
  case (Cons i "is" n ns)
  have "i * prod_list ns + offset ns is < Suc i * prod_list ns"
    using Cons.IH by simp
  also have "\<dots> \<le> n * prod_list ns"
    using Cons.hyps(1) by (intro mult_le_mono1) simp
  finally show ?case by simp
qed

lemma indices_nth_offset: "valid sh ix \<Longrightarrow> indices sh ! offset sh ix = ix"
  unfolding valid_def
proof (induction ix sh rule: list_all2_induct)
  case Nil
  then show ?case by simp
next
  case (Cons i "is" n ns)
  have v: "valid ns is" using Cons.hyps(2) by (simp add: valid_def)
  have "concat (map (\<lambda>i. map ((#) i) (indices ns)) [0..<n]) ! (i * prod_list ns + offset ns is)
        = map ((#) i) (indices ns) ! offset ns is"
    using Cons.hyps(1) offset_less [OF v]
    by (intro nth_concat_uniform) (simp_all add: length_indices)
  also have "\<dots> = i # is"
    using offset_less [OF v] Cons.IH by (simp add: length_indices)
  finally show ?case by simp
qed

lemma elem_tabulate: "valid sh ix \<Longrightarrow> elem (tabulate sh f) ix = f ix"
  using offset_less [of sh ix] indices_nth_offset [of sh ix]
  by (simp add: elem_def tabulate_def length_indices)

lemma data_tabulate_nth:
  "valid sh ix \<Longrightarrow> data (tabulate sh f) ! offset sh ix = f ix"
  using elem_tabulate [of sh ix f] by (simp add: elem_def tabulate_def)

lemma wellformed_tabulate: "wellformed (tabulate sh f)"
  by (simp add: wellformed_def tabulate_def length_indices)

lemma shape_tabulate: "shape (tabulate sh f) = sh"
  by (simp add: tabulate_def)

lemma valid3: "valid [a, b, c] [i, j, k] \<longleftrightarrow> i < a \<and> j < b \<and> k < c"
  by (simp add: valid_def)

lemma elem_map2:
  assumes "wellformed a" "wellformed b" "shape a = shape b" "valid (shape a) ix"
  shows "elem \<lparr>shape = shape a, data = map2 f (data a) (data b)\<rparr> ix = f (elem a ix) (elem b ix)"
  using assms offset_less [of "shape a" ix] by (simp add: elem_def wellformed_def)

lemma elem_map:
  assumes "wellformed a" "valid (shape a) ix"
  shows "elem \<lparr>shape = shape a, data = map f (data a)\<rparr> ix = f (elem a ix)"
  using assms offset_less [of "shape a" ix] by (simp add: elem_def wellformed_def)

lemma slice_attr:
  assumes "shape t = [b, n, m]" "k < m"
  shows "tf_slice t [0, 0, k] [-1, -1, 1] = tabulate [b, n, 1] (\<lambda>ix. elem t (map2 (+) [0, 0, k] ix))"
  using assms by (simp add: tf_slice_def)

lemma elem_slice_attr:
  assumes "shape t = [b, n, m]" "k < m" "l < b" "i < n"
  shows "elem (tf_slice t [0, 0, k] [-1, -1, 1]) [l, i, 0] = elem t [l, i, k]"
  using assms by (simp add: slice_attr elem_tabulate valid3)

subsection \<open>Entrywise operations, slices and concatenation\<close>

lemma shape_tf_sub: "shape (tf_sub a b) = shape a"
  by (simp add: tf_sub_def)
lemma shape_tf_add: "shape (tf_add a b) = shape a"
  by (simp add: tf_add_def)
lemma shape_tf_div: "shape (tf_div a c) = shape a"
  by (simp add: tf_div_def)

lemma wellformed_tf_sub: "wellformed a \<Longrightarrow> wellformed b \<Longrightarrow> shape a = shape b \<Longrightarrow> wellformed (tf_sub a b)"
  by (simp add: tf_sub_def wellformed_def)
lemma wellformed_tf_add: "wellformed a \<Longrightarrow> wellformed b \<Longrightarrow> shape a = shape b \<Longrightarrow> wellformed (tf_add a b)"
  by (simp add: tf_add_def wellformed_def)
lemma wellformed_tf_div: "wellformed a \<Longrightarrow> wellformed (tf_div a c)"
  by (simp add: tf_div_def wellformed_def)

lemma elem_tf_sub:
  "wellformed a \<Longrightarrow> wellformed b \<Longrightarrow> shape a = shape b \<Longrightarrow> valid (shape a) ix \<Longrightarrow>
   elem (tf_sub a b) ix = elem a ix - elem b ix"
  unfolding tf_sub_def by (rule elem_map2)
lemma elem_tf_add:
  "wellformed a \<Longrightarrow> wellformed b \<Longrightarrow> shape a = shape b \<Longrightarrow> valid (shape a) ix \<Longrightarrow>
   elem (tf_add a b) ix = elem a ix + elem b ix"
  unfolding tf_add_def by (rule elem_map2)
lemma elem_tf_div:
  "wellformed a \<Longrightarrow> valid (shape a) ix \<Longrightarrow> elem (tf_div a c) ix = elem a ix / c"
  unfolding tf_div_def by (rule elem_map)

lemma shape_slice_attr:
  "shape t = [b, n, m] \<Longrightarrow> k < m \<Longrightarrow> shape (tf_slice t [0, 0, k] [-1, -1, 1]) = [b, n, 1]"
  by (simp add: slice_attr shape_tabulate)

lemma wellformed_slice: "wellformed (tf_slice t start sz)"
  by (simp add: tf_slice_def wellformed_tabulate)

lemma locate_units: "k < 4 \<Longrightarrow> locate [1, 1, 1, 1] k = (k, 0)"
proof -
  assume "k < 4"
  then consider "k = 0" | "k = 1" | "k = 2" | "k = 3" by linarith
  then show ?thesis by cases simp_all
qed

lemma shape_concat4:
  assumes "shape a = [1, n, 1]" "shape b = [1, n, 1]" "shape c = [1, n, 1]" "shape d = [1, n, 1]"
  shows "shape (tf_concat [a, b, c, d] 2) = [1, n, 4]"
  using assms by (simp add: tf_concat_def Let_def shape_tabulate)

lemma elem_concat4:
  assumes "shape a = [1, n, 1]" "shape b = [1, n, 1]" "shape c = [1, n, 1]" "shape d = [1, n, 1]"
    and "i < n" "k < 4"
  shows "elem (tf_concat [a, b, c, d] 2) [0, i, k] = elem ([a, b, c, d] ! k) [0, i, 0]"
proof -
  have "tf_concat [a, b, c, d] 2 = tabulate [1, n, 4]
     (\<lambda>ix. case locate [1, 1, 1, 1] (ix ! 2) of (j, r) \<Rightarrow> elem ([a, b, c, d] ! j) (ix[2 := r]))"
  proof -
    have "sum_list (map (\<lambda>t. shape t ! 2) [a, b, c, d]) = 4"
      and "map (\<lambda>t. shape t ! 2) [a, b, c, d] = [1, 1, 1, 1]"
      and "(shape (hd [a, b, c, d]))[2 := 4] = [1, n, 4]"
      using assms(1-4) by simp_all
    then show ?thesis
      unfolding tf_concat_def Let_def by (simp only:)
  qed
  moreover have "valid [1, n, 4] [0, i, k]"
    using assms(5,6) by (simp add: valid3)
  ultimately have "elem (tf_concat [a, b, c, d] 2) [0, i, k] =
      (case locate [1, 1, 1, 1] k of (j, r) \<Rightarrow> elem ([a, b, c, d] ! j) [0, i, r])"
    by (simp add: elem_tabulate del: locate.simps)
  then show ?thesis
    by (simp only: locate_units [OF assms(6)] prod.case)
qed

lemma data_concat4:
  assumes "shape a = [1, n, 1]" "shape b = [1, n, 1]" "shape c = [1, n, 1]" "shape d = [1, n, 1]"
    and "i < n" "k < 4"
  shows "data (tf_concat [a, b, c, d] 2) ! (4 * i + k) = elem ([a, b, c, d] ! k) [0, i, 0]"
proof -
  have "elem (tf_concat [a, b, c, d] 2) [0, i, k] = data (tf_concat [a, b, c, d] 2) ! (4 * i + k)"
    by (simp add: elem_def shape_concat4 [OF assms(1-4)] mult.commute)
  then show ?thesis using elem_concat4 [OF assms] by simp
qed

lemma length_data_concat4:
  assumes "shape a = [1, n, 1]" "shape b = [1, n, 1]" "shape c = [1, n, 1]" "shape d = [1, n, 1]"
  shows "length (data (tf_concat [a, b, c, d] 2)) = 4 * n"
proof -
  have "wellformed (tf_concat [a, b, c, d] 2)"
    by (simp add: tf_concat_def Let_def wellformed_tabulate)
  then show ?thesis
    by (simp add: wellformed_def shape_concat4 [OF assms])
qed

lemma boxes_component:
  fixes transRes :: "'a::{plus,minus,inverse,numeral} tensor"
  assumes "shape transRes = [1, n, m]" "4 \<le> m" "i < n" "k < 4"
  shows "data (detect_boxes transRes) ! (4 * i + k) =
     [elem transRes [0, i, 1] - elem transRes [0, i, 3] / 2,
      elem transRes [0, i, 0] - elem transRes [0, i, 2] / 2,
      (elem transRes [0, i, 1] - elem transRes [0, i, 3] / 2) + elem transRes [0, i, 3],
      (elem transRes [0, i, 0] - elem transRes [0, i, 2] / 2) + elem transRes [0, i, 2]] ! k"
proof -
  define sl where "sl k = tf_slice transRes [0, 0, k] [-1, -1, 1]" for k
  have sh: "shape (sl k) = [1, n, 1]" if "k < 4" for k
    using that assms(1,2) by (simp add: sl_def shape_slice_attr)
  have wfs: "wellformed (sl k)" for k by (simp add: sl_def wellformed_slice)
  have els: "elem (sl k) [0, i, 0] = elem transRes [0, i, k]" if "k < 4" for k
    using that assms(1-3) by (simp add: sl_def elem_slice_attr)
  define x1 where "x1 = tf_sub (sl 0) (tf_div (sl 2) 2)"
  define y1 where "y1 = tf_sub (sl 1) (tf_div (sl 3) 2)"
  have v: "valid [1, n, 1] [0, i, 0]" using assms(3) by (simp add: valid3)
  have x1: "shape x1 = [1, n, 1]" "wellformed x1"
    "elem x1 [0, i, 0] = elem transRes [0, i, 0] - elem transRes [0, i, 2] / 2"
    using v by (simp_all add: x1_def shape_tf_sub sh wellformed_tf_sub wellformed_tf_div wfs shape_tf_div
        elem_tf_sub elem_tf_div els)
  have y1: "shape y1 = [1, n, 1]" "wellformed y1"
    "elem y1 [0, i, 0] = elem transRes [0, i, 1] - elem transRes [0, i, 3] / 2"
    using v by (simp_all add: y1_def shape_tf_sub sh wellformed_tf_sub wellformed_tf_div wfs shape_tf_div
        elem_tf_sub elem_tf_div els)
  have y2: "shape (tf_add y1 (sl 3)) = [1, n, 1]"
    "elem (tf_add y1 (sl 3)) [0, i, 0] = elem y1 [0, i, 0] + elem transRes [0, i, 3]"
    using v by (simp_all add: shape_tf_add y1 elem_tf_add wfs sh els)
  have x2: "shape (tf_add x1 (sl 2)) = [1, n, 1]"
    "elem (tf_add x1 (sl 2)) [0, i, 0] = elem x1 [0, i, 0] + elem transRes [0, i, 2]"
    using v by (simp_all add: shape_tf_add x1 elem_tf_add wfs sh els)
  have eq: "detect_boxes transRes =
      tf_squeeze (tf_concat [y1, x1, tf_add y1 (sl 3), tf_add x1 (sl 2)] 2)"
    by (simp add: detect_boxes_def Let_def x1_def y1_def sl_def)
  have main: "data (detect_boxes transRes) ! (4 * i + k) =
      elem ([y1, x1, tf_add y1 (sl 3), tf_add x1 (sl 2)] ! k) [0, i, 0]"
    unfolding eq tf_squeeze_def
    using data_concat4 [OF y1(1) x1(1) y2(1) x2(1) assms(3,4)] by simp
  from assms(4) consider "k = 0" | "k = 1" | "k = 2" | "k = 3" by linarith
  then show ?thesis
    using main by cases (simp_all add: x1 y1 y2 x2)
qed

lemma transpose021:
  assumes "shape t = [b, m, n]"
  shows "tf_transpose t [0, 2, 1] = tabulate [b, n, m] (\<lambda>ix. elem t [ix ! 0, ix ! 2, ix ! 1])"
  using assms by (simp add: tf_transpose_def upt_rec numeral_2_eq_2)

lemma elem_transpose021:
  assumes "shape t = [b, m, n]" "l < b" "i < n" "k < m"
  shows "elem (tf_transpose t [0, 2, 1]) [l, i, k] = elem t [l, k, i]"
  unfolding transpose021 [OF assms(1)] using assms(2-4) by (simp add: elem_tabulate valid3)

lemma max_list_Max: "xs \<noteq> [] \<Longrightarrow> max_list xs = Max (set xs)"
proof (cases xs)
  case Nil
  assume "xs \<noteq> []"
  with Nil show ?thesis by simp
next
  case (Cons a list)
  show ?thesis
    unfolding Cons max_list_def using Max.set_eq_fold [of a list] by simp
qed

lemma length_takeWhile_less: "x \<in> set xs \<Longrightarrow> \<not> P x \<Longrightarrow> length (takeWhile P xs) < length xs"
  by (induction xs) auto

lemma argmax_list_props:
  assumes "xs \<noteq> []"
  shows "argmax_list xs < length xs"
    and "xs ! argmax_list xs = Max (set xs)"
    and "\<And>j. j < argmax_list xs \<Longrightarrow> xs ! j < Max (set xs)"
proof -
  let ?m = "Max (set xs)"
  have mem: "?m \<in> set xs" using assms by (simp add: Max_in)
  have eq: "argmax_list xs = length (takeWhile (\<lambda>v. v \<noteq> ?m) xs)"
    using assms by (simp add: argmax_list_def max_list_Max)
  show lt: "argmax_list xs < length xs"
    unfolding eq using mem by (rule length_takeWhile_less) simp
  show "xs ! argmax_list xs = ?m"
    using lt nth_length_takeWhile [of "\<lambda>v. v \<noteq> ?m" xs] unfolding eq by simp
  show "xs ! j < ?m" if "j < argmax_list xs" for j
  proof -
    have "xs ! j \<noteq> ?m"
      using that takeWhile_nth [of j "\<lambda>v. v \<noteq> ?m" xs] nth_mem [of j "takeWhile (\<lambda>v. v \<noteq> ?m) xs"]
      unfolding eq by (metis set_takeWhileD)
    moreover have "xs ! j \<le> ?m"
      using that lt by (simp add: Max_ge)
    ultimately show ?thesis by simp
  qed
qed

lemma take4_drop:
  assumes "4 * i + 4 \<le> length xs"
  shows "take 4 (drop (4 * i) xs) = [xs ! (4 * i), xs ! (4 * i + 1), xs ! (4 * i + 2), xs ! (4 * i + 3)]"
  using assms by (intro nth_equalityI) (auto simp: less_Suc_eq numeral_eq_Suc)

lemma boxes_length:
  fixes transRes :: "'a::{plus,minus,inverse,numeral} tensor"
  assumes "shape transRes = [1, n, m]" "4 \<le> m"
  shows "length (data (detect_boxes transRes)) = 4 * n"
    and "shape (detect_boxes transRes) = filter (\<lambda>d. d \<noteq> 1) [1, n, 4]"
proof -
  define sl where "sl k = tf_slice transRes [0, 0, k] [-1, -1, 1]" for k
  have sh: "shape (sl k) = [1, n, 1]" if "k < 4" for k
    using that assms(1,2) by (simp add: sl_def shape_slice_attr)
  define x1 where "x1 = tf_sub (sl 0) (tf_div (sl 2) 2)"
  define y1 where "y1 = tf_sub (sl 1) (tf_div (sl 3) 2)"
  have s: "shape y1 = [1, n, 1]" "shape x1 = [1, n, 1]"
    "shape (tf_add y1 (sl 3)) = [1, n, 1]" "shape (tf_add x1 (sl 2)) = [1, n, 1]"
    by (simp_all add: x1_def y1_def shape_tf_sub shape_tf_add sh)
  have eq: "detect_boxes transRes =
      tf_squeeze (tf_concat [y1, x1, tf_add y1 (sl 3), tf_add x1 (sl 2)] 2)"
    by (simp add: detect_boxes_def Let_def x1_def y1_def sl_def)
  show "length (data (detect_boxes transRes)) = 4 * n"
    unfolding eq tf_squeeze_def using length_data_concat4 [OF s] by simp
  show "shape (detect_boxes transRes) = filter (\<lambda>d. d \<noteq> 1) [1, n, 4]"
    unfolding eq tf_squeeze_def using shape_concat4 [OF s] by simp
qed

lemma raw_scores_row:
  assumes "shape transRes = [1, n, m]" "4 + c \<le> m" "i < n"
  shows "row (tf_squeeze_axis (tf_slice transRes [0, 0, 4] [-1, -1, int c]) 0) i =
         map (\<lambda>j. elem transRes [0, i, 4 + j]) [0..<c]"
    and "shape (tf_squeeze_axis (tf_slice transRes [0, 0, 4] [-1, -1, int c]) 0) = [n, c]"
proof -
  let ?s = "tf_slice transRes [0, 0, 4] [-1, -1, int c]"
  have sl: "?s = tabulate [1, n, c] (\<lambda>ix. elem transRes (map2 (+) [0, 0, 4] ix))"
    using assms(1) by (simp add: tf_slice_def)
  show sh: "shape (tf_squeeze_axis ?s 0) = [n, c]"
    by (simp add: sl tf_squeeze_axis_def shape_tabulate)
  have "elem (tf_squeeze_axis ?s 0) [i, j] = elem transRes [0, i, 4 + j]" if "j < c" for j
  proof -
    have "elem (tf_squeeze_axis ?s 0) [i, j] = elem ?s [0, i, j]"
      by (simp add: elem_def sl tf_squeeze_axis_def shape_tabulate)
    also have "\<dots> = elem transRes [0, i, 4 + j]"
      unfolding sl using that assms(3) by (simp add: elem_tabulate valid3)
    finally show ?thesis .
  qed
  then show "row (tf_squeeze_axis ?s 0) i = map (\<lambda>j. elem transRes [0, i, 4 + j]) [0..<c]"
    by (simp add: row_def sh)
qed

lemma data_tabulate1: "i < n \<Longrightarrow> data (tabulate [n] f) ! i = f [i]"
  using data_tabulate_nth [of "[n]" "[i]" f] by (simp add: valid_def)

lemma scores_component:
  fixes transRes :: "'a::linorder tensor"
  assumes "shape transRes = [1, n, m]" "4 + c \<le> m" "i < n"
  shows "data (fst (detect_scores c transRes)) ! i =
           max_list (map (\<lambda>j. elem transRes [0, i, 4 + j]) [0..<c])"
    and "data (snd (detect_scores c transRes)) ! i =
           argmax_list (map (\<lambda>j. elem transRes [0, i, 4 + j]) [0..<c])"
    and "shape (fst (detect_scores c transRes)) = [n]"
    and "shape (snd (detect_scores c transRes)) = [n]"
    and "length (data (fst (detect_scores c transRes))) = n"
    and "length (data (snd (detect_scores c transRes))) = n"
  using assms(3) raw_scores_row [OF assms]
  by (simp_all add: detect_scores_def Let_def tf_max_def tf_argMax_def data_tabulate1
      shape_tabulate tabulate_def length_indices)

subsection \<open>The box decoder\<close>

text \<open>
  Claim C1. For a model output \<open>res\<close> of shape \<open>[1, 4 + C, N]\<close> and every detection
  \<open>i < N\<close>, with \<open>cx, cy, w, h\<close> the entries 0..3 of detection \<open>i\<close> in the transposed
  tensor (shape \<open>[1, N, 4 + C]\<close>), the decoded box is \<open>x1 = cx - w / 2\<close>,
  \<open>y1 = cy - h / 2\<close>, \<open>y2 = y1 + h\<close>, \<open>x2 = x1 + w\<close>, stored at positions
  \<open>4 * i .. 4 * i + 3\<close> of the boxes buffer in the order \<open>y1, x1, y2, x2\<close>. The buffer
  holds \<open>4 * N\<close> numbers: every one of the \<open>N\<close> detections is decoded, whatever its
  scores. The statement holds for any arithmetic on the entries.
\<close>

theorem box_decoder:
  fixes res :: "'a::{plus,minus,inverse,numeral} tensor"
  assumes "shape res = [1, 4 + C, N]" and "i < N"
  shows "let transRes = tf_transpose res [0, 2, 1];
             cx = elem transRes [0, i, 0]; cy = elem transRes [0, i, 1];
             w = elem transRes [0, i, 2]; h = elem transRes [0, i, 3];
             x1 = cx - w / 2; y1 = cy - h / 2; y2 = y1 + h; x2 = x1 + w
         in shape transRes = [1, N, 4 + C] \<and>
            [cx, cy, w, h] =
              [elem res [0, 0, i], elem res [0, 1, i], elem res [0, 2, i], elem res [0, 3, i]] \<and>
            length (data (detect_boxes transRes)) = 4 * N \<and>
            take 4 (drop (4 * i) (data (detect_boxes transRes))) = [y1, x1, y2, x2]"
proof -
  define transRes where "transRes = tf_transpose res [0, 2, 1]"
  have sh: "shape transRes = [1, N, 4 + C]"
    unfolding transRes_def transpose021 [OF assms(1)] by (simp add: shape_tabulate)
  have attrs: "elem transRes [0, i, k] = elem res [0, k, i]" if "k < 4" for k
    unfolding transRes_def using that assms(2)
    by (intro elem_transpose021 [OF assms(1)]) simp_all
  have len: "length (data (detect_boxes transRes)) = 4 * N"
    using boxes_length(1) [OF sh] by simp
  have comp: "data (detect_boxes transRes) ! (4 * i + k) =
     [elem transRes [0, i, 1] - elem transRes [0, i, 3] / 2,
      elem transRes [0, i, 0] - elem transRes [0, i, 2] / 2,
      (elem transRes [0, i, 1] - elem transRes [0, i, 3] / 2) + elem transRes [0, i, 3],
      (elem transRes [0, i, 0] - elem transRes [0, i, 2] / 2) + elem transRes [0, i, 2]] ! k"
    if "k < 4" for k
    using boxes_component [OF sh _ assms(2) that] by simp
  have "4 * i + 4 \<le> length (data (detect_boxes transRes))"
    using len assms(2) by simp
  then have "take 4 (drop (4 * i) (data (detect_boxes transRes))) =
     [elem transRes [0, i, 1] - elem transRes [0, i, 3] / 2,
      elem transRes [0, i, 0] - elem transRes [0, i, 2] / 2,
      (elem transRes [0, i, 1] - elem transRes [0, i, 3] / 2) + elem transRes [0, i, 3],
      (elem transRes [0, i, 0] - elem transRes [0, i, 2] / 2) + elem transRes [0, i, 2]]"
    using comp [of 0] comp [of 1] comp [of 2] comp [of 3] by (simp add: take4_drop)
  then show ?thesis
    using sh len attrs [of 0] attrs [of 1] attrs [of 2] attrs [of 3]
    unfolding Let_def transRes_def [symmetric] by simp
qed

text \<open>
  The first detection of \<open>example_out\<close> has \<open>cx = 50\<close>, \<open>cy = 50\<close>, \<open>w = 20\<close>,
  \<open>h = 10\<close> and decodes to \<open>(y1, x1, y2, x2) = (45, 40, 55, 60)\<close>.
\<close>

theorem box_decoder_witness:
  "shape example_out = [1, 4 + 2, 3] \<and> (0::nat) < 3 \<and>
   elem (tf_transpose example_out [0, 2, 1]) [0, 0, 0] = 50 \<and>
   elem (tf_transpose example_out [0, 2, 1]) [0, 0, 1] = 50 \<and>
   elem (tf_transpose example_out [0, 2, 1]) [0, 0, 2] = 20 \<and>
   elem (tf_transpose example_out [0, 2, 1]) [0, 0, 3] = 10 \<and>
   length (data (detect_boxes (tf_transpose example_out [0, 2, 1]))) = 12 \<and>
   take 4 (drop (4 * 0) (data (detect_boxes (tf_transpose example_out [0, 2, 1]))))
     = [45, 40, 55, 60]"
proof -
  have s: "shape example_out = [1, 4 + 2, 3]" by (simp add: example_out_def)
  have a: "elem (tf_transpose example_out [0, 2, 1]) [0, 0, k] = elem example_out [0, k, 0]"
    if "k < 6" for k
    using that by (intro elem_transpose021 [of _ 1 6 3]) (simp_all add: example_out_def)
  have v: "elem example_out [0, 0, 0] = 50" "elem example_out [0, 1, 0] = 50"
    "elem example_out [0, 2, 0] = 20" "elem example_out [0, 3, 0] = 10"
    by (simp_all add: example_out_def elem_def)
  show ?thesis
    using box_decoder [OF s, of 0] s a [of 0] a [of 1] a [of 2] a [of 3] v
    by (simp add: Let_def)
qed

subsection \<open>Score reduction\<close>

text \<open>
  Claim C5. For every detection \<open>i < N\<close>, with \<open>cls\<close> its \<open>C\<close> class scores (entries
  \<open>4 .. 4 + C - 1\<close> of detection \<open>i\<close> in the transposed tensor), the score is the maximum
  of \<open>cls\<close> and the class index is the lowest index at which the maximum stands: every
  class before it has a strictly smaller score, so of two classes with the same maximal
  score the one with the lower index is chosen.
\<close>

theorem score_reduction:
  fixes res :: "'a::linorder tensor"
  assumes "shape res = [1, 4 + C, N]" and "0 < C" and "i < N"
  shows "let transRes = tf_transpose res [0, 2, 1];
             cls = map (\<lambda>j. elem transRes [0, i, 4 + j]) [0..<C];
             score = data (fst (detect_scores C transRes)) ! i;
             classId = data (snd (detect_scores C transRes)) ! i
         in cls = map (\<lambda>j. elem res [0, 4 + j, i]) [0..<C] \<and>
            length (data (fst (detect_scores C transRes))) = N \<and>
            length (data (snd (detect_scores C transRes))) = N \<and>
            score = Max (set cls) \<and> classId < C \<and> cls ! classId = score \<and>
            (\<forall>j<classId. cls ! j < score) \<and> (\<forall>j<C. cls ! j \<le> score)"
proof -
  define transRes where "transRes = tf_transpose res [0, 2, 1]"
  define cls where "cls = map (\<lambda>j. elem transRes [0, i, 4 + j]) [0..<C]"
  have sh: "shape transRes = [1, N, 4 + C]"
    unfolding transRes_def transpose021 [OF assms(1)] by (simp add: shape_tabulate)
  have ne: "cls \<noteq> []" and lc: "length cls = C"
    using assms(2) by (simp_all add: cls_def)
  have "elem transRes [0, i, 4 + j] = elem res [0, 4 + j, i]" if "j < C" for j
    unfolding transRes_def using that assms(3)
    by (intro elem_transpose021 [OF assms(1)]) simp_all
  then have c1: "cls = map (\<lambda>j. elem res [0, 4 + j, i]) [0..<C]"
    by (simp add: cls_def)
  note sc = scores_component [OF sh order_refl assms(3), folded cls_def]
  have s: "data (fst (detect_scores C transRes)) ! i = Max (set cls)"
    using sc(1) ne by (simp add: max_list_Max)
  have "\<forall>j<C. cls ! j \<le> Max (set cls)"
    using lc by (simp add: Max_ge)
  then show ?thesis
    using c1 s sc(2,5,6) argmax_list_props [OF ne] lc
    unfolding Let_def transRes_def [symmetric] cls_def [symmetric] by simp
qed

text \<open>
  The third detection of \<open>example_out\<close> has the class scores \<open>1/2, 1/2\<close>: its score is
  \<open>1/2\<close> and its class index is 0.
\<close>

theorem score_reduction_witness:
  "shape example_out = [1, 4 + 2, 3] \<and> (0::nat) < 2 \<and> (2::nat) < 3 \<and>
   map (\<lambda>j. elem example_out [0, 4 + j, 2]) [0..<2] = [1/2, 1/2] \<and>
   data (fst (detect_scores 2 (tf_transpose example_out [0, 2, 1]))) ! 2 = 1/2 \<and>
   data (snd (detect_scores 2 (tf_transpose example_out [0, 2, 1]))) ! 2 = 0"
proof -
  have s: "shape example_out = [1, 4 + 2, 3]"
    by (simp add: example_out_def)
  have v: "map (\<lambda>j. elem example_out [0, 4 + j, 2]) [0..<2] = [1/2, 1/2]"
    "data (fst (detect_scores 2 (tf_transpose example_out [0, 2, 1]))) ! 2 = 1/2"
    "data (snd (detect_scores 2 (tf_transpose example_out [0, 2, 1]))) ! 2 = 0"
    by code_simp+
  show ?thesis
    using score_reduction [OF s, of 2] s v by simp
qed

subsection \<open>The suppression stage\<close>

lemma set_greedy: "set (greedy thr m bd cs) \<subseteq> set cs"
  by (induction thr m bd cs rule: greedy.induct) auto

lemma length_greedy: "length (greedy thr m bd cs) \<le> m"
  by (induction thr m bd cs rule: greedy.induct) auto

lemma distinct_greedy: "distinct cs \<Longrightarrow> distinct (greedy thr m bd cs)"
proof (induction thr m bd cs rule: greedy.induct)
  case (3 thr m bd c cs)
  then show ?case using set_greedy [of thr m bd "filter (\<lambda>j. \<not> thr < iou (box_at bd c) (box_at bd j)) cs"]
    by auto
qed simp_all

lemma sorted_wrt_greedy: "sorted_wrt P cs \<Longrightarrow> sorted_wrt P (greedy thr m bd cs)"
proof (induction thr m bd cs rule: greedy.induct)
  case (3 thr m bd c cs)
  then show ?case using set_greedy [of thr m bd "filter (\<lambda>j. \<not> thr < iou (box_at bd c) (box_at bd j)) cs"]
    by (auto simp: sorted_wrt_filter)
qed simp_all

lemma greedy_separated:
  "sorted_wrt (\<lambda>a b. \<not> thr < iou (box_at bd a) (box_at bd b)) (greedy thr m bd cs)"
proof (induction thr m bd cs rule: greedy.induct)
  case (3 thr m bd c cs)
  then show ?case using set_greedy [of thr m bd "filter (\<lambda>j. \<not> thr < iou (box_at bd c) (box_at bd j)) cs"]
    by auto
qed simp_all

lemma greedy_complete:
  "j \<in> set cs \<Longrightarrow> j \<notin> set (greedy thr m bd cs) \<Longrightarrow>
   length (greedy thr m bd cs) = m \<or>
   (\<exists>c\<in>set (greedy thr m bd cs). thr < iou (box_at bd c) (box_at bd j))"
proof (induction thr m bd cs rule: greedy.induct)
  case (3 thr m bd c cs)
  let ?cs' = "filter (\<lambda>j. \<not> thr < iou (box_at bd c) (box_at bd j)) cs"
  from 3(2,3) have j: "j \<in> set cs" "j \<notin> set (greedy thr m bd ?cs')" by auto
  show ?case
  proof (cases "thr < iou (box_at bd c) (box_at bd j)")
    case True
    then show ?thesis by auto
  next
    case False
    with j have "j \<in> set ?cs'" by simp
    from 3(1) [OF this j(2)] show ?thesis by auto
  qed
qed simp_all

lemma candidates_props:
  shows "set (candidates scs t) = {i. i < length scs \<and> t \<le> scs ! i}"
    and "distinct (candidates scs t)"
    and "sorted_wrt (\<lambda>a b. scs ! b \<le> scs ! a) (candidates scs t)"
proof -
  show "set (candidates scs t) = {i. i < length scs \<and> t \<le> scs ! i}"
    by (auto simp: candidates_def)
  show "distinct (candidates scs t)"
    by (simp add: candidates_def)
  have "sorted (map (\<lambda>i. - (scs ! i)) (candidates scs t))"
    unfolding candidates_def by (rule sorted_sort_key)
  then show "sorted_wrt (\<lambda>a b. scs ! b \<le> scs ! a) (candidates scs t)"
    by (simp add: sorted_map)
qed

lemma greedy_Nil: "greedy thr m bd [] = []"
  by (cases m) simp_all

lemma greedy_Cons:
  "0 < m \<Longrightarrow> greedy thr m bd (c # cs) =
     c # greedy thr (m - 1) bd (filter (\<lambda>j. \<not> thr < iou (box_at bd c) (box_at bd j)) cs)"
  by (cases m) simp_all

lemma nms_two_boxes:
  fixes boxes scores :: "'a::linordered_field tensor"
  assumes "data scores = [9/10, 8/10]"
  shows "detect_nms boxes scores =
     (if 45/100 < iou (box_at (data boxes) 0) (box_at (data boxes) 1) then [0] else [0, 1])"
proof -
  have "[0..<length (data scores)] = [0, 1]"
    using assms by (simp add: upt_rec)
  then have "candidates (data scores) (2/10) = [0, 1]"
    using assms by (simp add: candidates_def)
  then show ?thesis
    by (simp add: detect_nms_def nonMaxSuppression_def greedy_Cons greedy_Nil)
qed

text \<open>
  Claim C4, as the code has it. The suppression in \<^verbatim>\<open>detect\<close> is greedy non-maximum
  suppression with the parameters 500, 0.45 and 0.2, which are literals of the call. Every
  returned index is a detection with a score of at least 0.2 (a box with a score below 0.2
  is excluded); at most 500 indices are returned, none twice, in non-increasing score order;
  no returned box overlaps an earlier returned box with an IoU above 0.45; and a detection
  with a score of at least 0.2 that is not returned overlaps a returned box with an IoU
  above 0.45, unless 500 indices were returned. Of two boxes with the scores 0.9 and 0.8,
  only the first is returned when their IoU is above 0.45, and both are otherwise.
\<close>

theorem suppression_stage:
  fixes boxes scores :: "'a::linordered_field tensor"
  shows "let r = detect_nms boxes scores; bd = data boxes; sc = data scores in
      r = nonMaxSuppression boxes scores 500 (45/100) (2/10) \<and>
      (\<forall>i\<in>set r. i < length sc \<and> 2/10 \<le> sc ! i) \<and>
      distinct r \<and> length r \<le> 500 \<and>
      sorted_wrt (\<lambda>a b. sc ! b \<le> sc ! a) r \<and>
      sorted_wrt (\<lambda>a b. \<not> 45/100 < iou (box_at bd a) (box_at bd b)) r \<and>
      (\<forall>j. j < length sc \<and> 2/10 \<le> sc ! j \<and> j \<notin> set r \<longrightarrow>
           length r = 500 \<or> (\<exists>c\<in>set r. 45/100 < iou (box_at bd c) (box_at bd j))) \<and>
      (sc = [9/10, 8/10] \<longrightarrow>
           r = (if 45/100 < iou (box_at bd 0) (box_at bd 1) then [0] else [0, 1]))"
proof -
  define cs where "cs = candidates (data scores) (2/10)"
  define r where "r = detect_nms boxes scores"
  have r: "r = greedy (45/100) 500 (data boxes) cs"
    by (simp add: r_def cs_def detect_nms_def nonMaxSuppression_def)
  note c = candidates_props [of "data scores" "2/10", folded cs_def]
  have 1: "\<forall>i\<in>set r. i < length (data scores) \<and> 2/10 \<le> data scores ! i"
    using set_greedy [of "45/100" 500 "data boxes" cs] c(1) unfolding r by auto
  have 2: "distinct r" unfolding r using c(2) by (rule distinct_greedy)
  have 3: "length r \<le> 500" unfolding r by (rule length_greedy)
  have 4: "sorted_wrt (\<lambda>a b. data scores ! b \<le> data scores ! a) r"
    unfolding r using c(3) by (rule sorted_wrt_greedy)
  have 5: "sorted_wrt (\<lambda>a b. \<not> 45/100 < iou (box_at (data boxes) a) (box_at (data boxes) b)) r"
    unfolding r by (rule greedy_separated)
  have 6: "length r = 500 \<or> (\<exists>c\<in>set r. 45/100 < iou (box_at (data boxes) c) (box_at (data boxes) j))"
    if "j < length (data scores) \<and> 2/10 \<le> data scores ! j \<and> j \<notin> set r" for j
  proof -
    from that have "j \<in> set cs" using c(1) by simp
    moreover from that have "j \<notin> set (greedy (45/100) 500 (data boxes) cs)" by (simp add: r)
    ultimately show ?thesis unfolding r by (rule greedy_complete)
  qed
  have 7: "data scores = [9/10, 8/10] \<longrightarrow>
      r = (if 45/100 < iou (box_at (data boxes) 0) (box_at (data boxes) 1) then [0] else [0, 1])"
    unfolding r_def using nms_two_boxes [of scores boxes] by blast
  have 0: "r = nonMaxSuppression boxes scores 500 (45/100) (2/10)"
    by (simp add: r_def detect_nms_def)
  show ?thesis
    unfolding Let_def r_def [symmetric]
    using 0 1 2 3 4 5 6 7 by blast
qed

text \<open>
  In \<open>example_boxes\<close> the second box overlaps the first with an IoU of \<open>81/119\<close> and
  the third overlaps neither. With the scores 0.9, 0.8, 0.1 only the first box is returned;
  with the scores 0.9, 0.1, 0.8 the first and the third are. Of the two overlapping boxes
  with the scores 0.9 and 0.8 the first is returned, of the two boxes apart both are.
\<close>

theorem suppression_stage_witness:
  "detect_nms example_boxes example_scores = [0] \<and>
   detect_nms example_boxes example_scores' = [0, 2] \<and>
   iou (box_at (data example_boxes) 0) (box_at (data example_boxes) 1) = 81 / 119 \<and>
   iou (box_at (data example_boxes) 0) (box_at (data example_boxes) 2) = 0 \<and>
   data pair_scores = [9/10, 8/10] \<and>
   detect_nms pair_overlapping pair_scores = [0] \<and>
   detect_nms pair_apart pair_scores = [0, 1]"
proof -
  have v: "detect_nms example_boxes example_scores = [0]"
    "detect_nms example_boxes example_scores' = [0, 2]"
    "iou (box_at (data example_boxes) 0) (box_at (data example_boxes) 1) = 81 / 119"
    "iou (box_at (data example_boxes) 0) (box_at (data example_boxes) 2) = 0"
    by code_simp+
  have p: "data pair_scores = [9/10, 8/10]"
    "iou (box_at (data pair_overlapping) 0) (box_at (data pair_overlapping) 1) = 81 / 119"
    "iou (box_at (data pair_apart) 0) (box_at (data pair_apart) 1) = 0"
    by code_simp+
  have "data pair_scores = [9/10, 8/10] \<longrightarrow>
      detect_nms pair_overlapping pair_scores =
        (if 45/100 < iou (box_at (data pair_overlapping) 0) (box_at (data pair_overlapping) 1)
         then [0] else [0, 1])"
    using suppression_stage [of pair_overlapping pair_scores] unfolding Let_def by blast
  then have o: "detect_nms pair_overlapping pair_scores = [0]"
    using p by simp
  have "data pair_scores = [9/10, 8/10] \<longrightarrow>
      detect_nms pair_apart pair_scores =
        (if 45/100 < iou (box_at (data pair_apart) 0) (box_at (data pair_apart) 1)
         then [0] else [0, 1])"
    using suppression_stage [of pair_apart pair_scores] unfolding Let_def by blast
  then have a: "detect_nms pair_apart pair_scores = [0, 1]"
    using p by simp
  show ?thesis
    using v p(1) o a by simp
qed

text \<open>
  The claim also says that the three parameters are configurable. The stage is a function
  of the boxes and the scores alone: on \<open>example_boxes\<close> and \<open>example_scores\<close> it
  returns the first box, where the same suppression with a score threshold of 0.05 returns
  two boxes, with an IoU threshold of 0.9 returns two boxes, and with an output size of 0
  returns none.
\<close>

theorem suppression_configurable_counterexample:
  "detect_nms example_boxes example_scores = [0] \<and>
   nonMaxSuppression example_boxes example_scores 500 (45/100) (1/20) = [0, 2] \<and>
   nonMaxSuppression example_boxes example_scores 500 (9/10) (2/10) = [0, 1] \<and>
   nonMaxSuppression example_boxes example_scores 0 (45/100) (2/10) = []"
  by code_simp

subsection \<open>The coordinate rebaser\<close>

lemma renderBox_full:
  assumes "4 * i + 4 \<le> length bd"
  shows "box (renderBox g bd sd cd r mw mh i) =
     (let sx = fst r * (ImageOriginalWidth g / mw); sy = snd r * (ImageOriginalHeight g / mh);
          y1 = bd ! (4 * i) * sy; x1 = bd ! (4 * i + 1) * sx;
          y2 = bd ! (4 * i + 2) * sy; x2 = bd ! (4 * i + 3) * sx
      in [(Some x1, Some y1), (Some x2, Some y1), (Some x2, Some y2), (Some x1, Some y2)])"
  using assms
  by (simp add: renderBox_def Let_def js_slice_def js_nth_def js_mul_def mult.commute add.commute)

lemma renderBoxes_nth:
  "i < length sd \<Longrightarrow> renderBoxes g bd sd cd r mw mh ! i = renderBox g bd sd cd r mw mh i"
  by (simp add: renderBoxes_def)

lemma renderBox_scores: "renderBox g bd sd cd r mw mh i = renderBox g bd sd' cd r mw mh i"
  by (simp add: renderBox_def Let_def)

lemma renderBox_typology:
  "typology (renderBox g bd sd cd r mw mh i) =
     js_get (typeMappings g) (property_key (labels g) (js_nth cd i))"
  by (simp add: renderBox_def Let_def)

text \<open>
  Claim C3. The box of every detection \<open>i\<close> (entries \<open>y1, x1, y2, x2\<close> of the boxes
  buffer) is rescaled with \<open>scaleX = xRatio * (originalWidth / modelWidth)\<close> on \<open>x1\<close>
  and \<open>x2\<close> and \<open>scaleY = yRatio * (originalHeight / modelHeight)\<close> on \<open>y1\<close> and
  \<open>y2\<close>, and emitted as the polygon \<open>(x1', y1'), (x2', y1'), (x2', y2'), (x1', y2')\<close>.
  When both ratios are 1 and the model and the original image have one common, non-zero
  side length, the box is emitted unchanged.
\<close>

theorem coordinate_rebaser:
  fixes g :: "('a::field, 't) globals"
  assumes "i < length sd" and "4 * i + 4 \<le> length bd"
  shows "let y1 = bd ! (4 * i); x1 = bd ! (4 * i + 1); y2 = bd ! (4 * i + 2); x2 = bd ! (4 * i + 3);
             scaleX = xRatio * (ImageOriginalWidth g / modelWidth);
             scaleY = yRatio * (ImageOriginalHeight g / modelHeight);
             b = box (renderBoxes g bd sd cd (xRatio, yRatio) modelWidth modelHeight ! i)
         in b = [(Some (x1 * scaleX), Some (y1 * scaleY)), (Some (x2 * scaleX), Some (y1 * scaleY)),
                 (Some (x2 * scaleX), Some (y2 * scaleY)), (Some (x1 * scaleX), Some (y2 * scaleY))] \<and>
            (xRatio = 1 \<and> yRatio = 1 \<and> modelWidth = modelHeight \<and>
             modelHeight = ImageOriginalWidth g \<and> ImageOriginalWidth g = ImageOriginalHeight g \<and>
             modelWidth \<noteq> 0 \<longrightarrow>
             b = [(Some x1, Some y1), (Some x2, Some y1), (Some x2, Some y2), (Some x1, Some y2)])"
  using assms by (auto simp add: renderBoxes_nth renderBox_full Let_def)

text \<open>
  A box at the four corners of a 200 by 200 model input maps to itself for a 200 by 200
  original; a box of a 100 by 200 model input is scaled by 2 on both axes when the ratios
  are 1 and 2.
\<close>

theorem coordinate_rebaser_witness:
  "(0::nat) < length [9/10 :: rat] \<and> 4 * 0 + 4 \<le> length [0, 0, 200, 200 :: rat] \<and>
   box (renderBoxes example_globals [0, 0, 200, 200] [9/10] [0] (1, 1) 200 200 ! 0)
     = [(Some 0, Some 0), (Some 200, Some 0), (Some 200, Some 200), (Some 0, Some 200)] \<and>
   box (renderBoxes example_globals [80, 80, 120, 120] [9/10] [0] (1, 2) 100 200 ! 0)
     = [(Some 160, Some 160), (Some 240, Some 160), (Some 240, Some 240), (Some 160, Some 240)]"
  using coordinate_rebaser [where i = 0 and sd = "[9/10]" and bd = "[0, 0, 200, 200]"
      and g = example_globals and xRatio = 1 and yRatio = 1 and modelWidth = 200
      and modelHeight = 200 and cd = "[0]"]
    coordinate_rebaser [where i = 0 and sd = "[9/10]" and bd = "[80, 80, 120, 120]"
      and g = example_globals and xRatio = 1 and yRatio = 2 and modelWidth = 100
      and modelHeight = 200 and cd = "[0]"]
  by (simp add: example_globals_def Let_def)

text \<open>
  Claim C9. For parallel inputs of \<open>n\<close> detections (\<open>n\<close> scores, \<open>4 * n\<close> box
  entries, \<open>n\<close> class indices), \<^verbatim>\<open>renderBoxes\<close> returns exactly \<open>n\<close> annotations,
  the \<open>i\<close>-th made of the \<open>i\<close>-th box and the \<open>i\<close>-th class index; for \<open>n = 0\<close> it
  returns the empty list. The function has no failing branch.
\<close>

theorem rebaser_cardinality:
  fixes g :: "('a::{times,minus,inverse,numeral}, 't) globals"
  assumes "length scores_data = n" and "length boxes_data = 4 * n" and "length classes_data = n"
  shows "length (renderBoxes g boxes_data scores_data classes_data ratios modelWidth modelHeight) = n \<and>
         (n = 0 \<longrightarrow>
            renderBoxes g boxes_data scores_data classes_data ratios modelWidth modelHeight = []) \<and>
         (\<forall>i<n.
            let scaleX = fst ratios * (ImageOriginalWidth g / modelWidth);
                scaleY = snd ratios * (ImageOriginalHeight g / modelHeight);
                y1 = boxes_data ! (4 * i) * scaleY; x1 = boxes_data ! (4 * i + 1) * scaleX;
                y2 = boxes_data ! (4 * i + 2) * scaleY; x2 = boxes_data ! (4 * i + 3) * scaleX
            in renderBoxes g boxes_data scores_data classes_data ratios modelWidth modelHeight ! i =
               \<lparr>box = [(Some x1, Some y1), (Some x2, Some y1), (Some x2, Some y2), (Some x1, Some y2)],
                typology = js_get (typeMappings g) (property_key (labels g) (Some (classes_data ! i)))\<rparr>)"
proof (intro conjI allI impI)
  show "length (renderBoxes g boxes_data scores_data classes_data ratios modelWidth modelHeight) = n"
    using assms(1) by (simp add: renderBoxes_def)
next
  assume "n = 0"
  then show "renderBoxes g boxes_data scores_data classes_data ratios modelWidth modelHeight = []"
    using assms(1) by (simp add: renderBoxes_def)
next
  fix i assume i: "i < n"
  let ?b = "renderBox g boxes_data scores_data classes_data ratios modelWidth modelHeight i"
  have "4 * i + 4 \<le> length boxes_data" using i assms(2) by simp
  note bx = renderBox_full [OF this, of g scores_data classes_data ratios modelWidth modelHeight]
  have ty: "typology ?b = js_get (typeMappings g) (property_key (labels g) (Some (classes_data ! i)))"
    using i assms(3) by (simp add: renderBox_typology js_nth_def)
  have "?b = \<lparr>box = box ?b, typology = typology ?b\<rparr>" by simp
  then show "let scaleX = fst ratios * (ImageOriginalWidth g / modelWidth);
                scaleY = snd ratios * (ImageOriginalHeight g / modelHeight);
                y1 = boxes_data ! (4 * i) * scaleY; x1 = boxes_data ! (4 * i + 1) * scaleX;
                y2 = boxes_data ! (4 * i + 2) * scaleY; x2 = boxes_data ! (4 * i + 3) * scaleX
            in renderBoxes g boxes_data scores_data classes_data ratios modelWidth modelHeight ! i =
               \<lparr>box = [(Some x1, Some y1), (Some x2, Some y1), (Some x2, Some y2), (Some x1, Some y2)],
                typology = js_get (typeMappings g) (property_key (labels g) (Some (classes_data ! i)))\<rparr>"
    using i assms(1) bx ty by (simp add: renderBoxes_nth Let_def)
qed

text \<open>Two detections give two annotations, in input order; none gives none.\<close>

theorem rebaser_cardinality_witness:
  "length [9/10, 4/5 :: rat] = 2 \<and> length [80, 80, 120, 120, 0, 0, 10, 20 :: rat] = 4 * 2 \<and>
   length [0, 0 :: int] = 2 \<and>
   renderBoxes example_globals [80, 80, 120, 120, 0, 0, 10, 20] [9/10, 4/5] [0, 0] (1, 1) 200 200 =
     [\<lparr>box = [(Some 80, Some 80), (Some 120, Some 80), (Some 120, Some 120), (Some 80, Some 120)],
       typology = Own 7\<rparr>,
      \<lparr>box = [(Some 0, Some 0), (Some 20, Some 0), (Some 20, Some 10), (Some 0, Some 10)],
       typology = Own 7\<rparr>] \<and>
   renderBoxes example_globals [] [] [] (1, 1) 200 200 = []"
proof -
  let ?r = "renderBoxes example_globals [80, 80, 120, 120, 0, 0, 10, 20] [9/10, 4/5] [0, 0] (1, 1) 200 200"
  note t = rebaser_cardinality [where scores_data = "[9/10, 4/5 :: rat]" and n = 2
      and boxes_data = "[80, 80, 120, 120, 0, 0, 10, 20]" and classes_data = "[0, 0]"
      and g = example_globals and ratios = "(1, 1)" and modelWidth = 200 and modelHeight = 200]
  note e = rebaser_cardinality [where scores_data = "[] :: rat list" and n = 0
      and boxes_data = "[]" and classes_data = "[]"
      and g = example_globals and ratios = "(1, 1)" and modelWidth = 200 and modelHeight = 200]
  have l: "length ?r = 2" using t by simp
  have "?r ! 0 = \<lparr>box = [(Some 80, Some 80), (Some 120, Some 80), (Some 120, Some 120), (Some 80, Some 120)],
       typology = Own 7\<rparr>"
    using t by (simp add: example_globals_def Let_def property_key_def js_get_def)
  moreover have "?r ! 1 = \<lparr>box = [(Some 0, Some 0), (Some 20, Some 0), (Some 20, Some 10), (Some 0, Some 10)],
       typology = Own 7\<rparr>"
    using t by (simp add: example_globals_def Let_def property_key_def js_get_def)
  ultimately have "?r = [\<lparr>box = [(Some 80, Some 80), (Some 120, Some 80), (Some 120, Some 120), (Some 80, Some 120)],
       typology = Own 7\<rparr>,
      \<lparr>box = [(Some 0, Some 0), (Some 20, Some 0), (Some 20, Some 10), (Some 0, Some 10)],
       typology = Own 7\<rparr>]"
    using l by (intro nth_equalityI) (auto simp: less_Suc_eq numeral_2_eq_2)
  then show ?thesis using e by simp
qed

text \<open>
  Claim C10. For fixed boxes, class indices, ratios and model dimensions, any two score
  arrays of the same length give the same annotations: an annotation holds the polygon and
  the typology only, and neither depends on the scores.
\<close>

theorem score_noninterference:
  fixes g :: "('a::{times,minus,inverse,numeral}, 't) globals"
  assumes "length scores_data = length scores_data'"
  shows "renderBoxes g boxes_data scores_data classes_data ratios modelWidth modelHeight =
         renderBoxes g boxes_data scores_data' classes_data ratios modelWidth modelHeight"
  using assms renderBox_scores [of g boxes_data scores_data classes_data ratios modelWidth modelHeight _ scores_data']
  by (simp add: renderBoxes_def)

text \<open>The scores 0.9 and 0.1 give the same annotation.\<close>

theorem score_noninterference_witness:
  "length [9/10 :: rat] = length [1/10 :: rat] \<and>
   renderBoxes example_globals [80, 80, 120, 120] [9/10] [0] (1, 1) 200 200 =
   renderBoxes example_globals [80, 80, 120, 120] [1/10] [0] (1, 1) 200 200"
  using score_noninterference [where scores_data = "[9/10 :: rat]" and scores_data' = "[1/10]"
      and g = example_globals and boxes_data = "[80, 80, 120, 120]" and classes_data = "[0]"
      and ratios = "(1, 1)" and modelWidth = 200 and modelHeight = 200]
  by simp

text \<open>
  Claim C6 says that a detection whose class has no entry in the label-to-type mapping
  makes the pipeline raise an error and emit no annotation. In \<open>example_globals\<close> the
  label \<open>b\<close> has no type, and a detection of class 1 is emitted, with an undefined
  typology.
\<close>

theorem unmapped_class_counterexample:
  "typeMappings example_globals (labels example_globals ! 1) = None \<and>
   renderBoxes example_globals [80, 80, 120, 120] [9/10] [1] (1, 1) 200 200 =
     [\<lparr>box = [(Some 80, Some 80), (Some 120, Some 80), (Some 120, Some 120), (Some 80, Some 120)],
       typology = Undefined\<rparr>]"
  by (simp add: renderBoxes_def renderBox_def example_globals_def Let_def js_slice_def js_nth_def
      js_mul_def js_sub_def property_key_def js_get_def Object_prototype_def)

text \<open>
  Claim C6, as the code has it. When the class index of detection \<open>i\<close> names a label that
  has no entry in the mapping, \<^verbatim>\<open>renderBoxes\<close> raises no error: it returns one
  annotation for every detection, and the typology of the \<open>i\<close>-th is what the lookup in
  a plain object gives for a missing entry: \<^verbatim>\<open>undefined\<close>, unless the label is the
  name of a property that every object inherits (such as \<open>constructor\<close>), in which case
  it is that inherited property.
\<close>

theorem unmapped_class:
  fixes g :: "('a::{times,minus,inverse,numeral}, 't) globals"
  assumes "i < length scores_data" and "i < length classes_data"
    and "0 \<le> classes_data ! i" and "nat (classes_data ! i) < length (labels g)"
    and "typeMappings g (labels g ! nat (classes_data ! i)) = None"
  shows "length (renderBoxes g boxes_data scores_data classes_data ratios modelWidth modelHeight)
           = length scores_data \<and>
         typology (renderBoxes g boxes_data scores_data classes_data ratios modelWidth modelHeight ! i)
           = (if labels g ! nat (classes_data ! i) \<in> set Object_prototype
              then Inherited (labels g ! nat (classes_data ! i)) else Undefined)"
  using assms
  by (simp add: renderBoxes_def renderBox_typology js_nth_def property_key_def js_get_def)

text \<open>
  The detection of class \<open>b\<close> in \<open>example_globals\<close> has an undefined typology; the
  detection of class \<open>constructor\<close> in \<open>inherited_globals\<close> has the inherited property
  of that name.
\<close>

theorem unmapped_class_witness:
  "(0::nat) < length [9/10 :: rat] \<and> 0 < length [1 :: int] \<and> (0::int) \<le> [1] ! 0 \<and>
   nat ([1] ! 0) < length (labels example_globals) \<and>
   typeMappings example_globals (labels example_globals ! nat ([1] ! 0)) = None \<and>
   length (renderBoxes example_globals [80, 80, 120, 120] [9/10] [1] (1, 1) 200 200) = 1 \<and>
   typology (renderBoxes example_globals [80, 80, 120, 120] [9/10] [1] (1, 1) 200 200 ! 0)
     = Undefined \<and>
   nat ([1] ! 0) < length (labels inherited_globals) \<and>
   typeMappings inherited_globals (labels inherited_globals ! nat ([1] ! 0)) = None \<and>
   typology (renderBoxes inherited_globals [80, 80, 120, 120] [9/10] [1] (1, 1) 200 200 ! 0)
     = Inherited ''constructor''"
proof -
  have h: "typeMappings example_globals (labels example_globals ! nat ([1] ! 0)) = None"
    "nat ([1] ! 0) < length (labels example_globals)"
    "labels example_globals ! nat ([1] ! 0) \<notin> set Object_prototype"
    by (simp_all add: example_globals_def Object_prototype_def)
  have k: "typeMappings inherited_globals (labels inherited_globals ! nat ([1] ! 0)) = None"
    "nat ([1] ! 0) < length (labels inherited_globals)"
    "labels inherited_globals ! nat ([1] ! 0) = ''constructor''"
    "''constructor'' \<in> set Object_prototype"
    by (simp_all add: inherited_globals_def Object_prototype_def)
  show ?thesis
    using h k
      unmapped_class [where i = 0 and scores_data = "[9/10 :: rat]" and classes_data = "[1]"
        and g = example_globals and boxes_data = "[80, 80, 120, 120]" and ratios = "(1, 1)"
        and modelWidth = 200 and modelHeight = 200]
      unmapped_class [where i = 0 and scores_data = "[9/10 :: rat]" and classes_data = "[1]"
        and g = inherited_globals and boxes_data = "[80, 80, 120, 120]" and ratios = "(1, 1)"
        and modelWidth = 200 and modelHeight = 200]
    by simp
qed

subsection \<open>The preprocessor\<close>

lemma round_double_1: "round_double 1 = 1"
  by code_simp

lemma js_div_self: "0 < n \<Longrightarrow> js_div n n = Fin 1"
  by (simp add: js_div_def round_double_1)

lemma pow2_powi: "pow2 e = 2 powi e"
  by (simp add: pow2_def power_int_def inverse_eq_divide power_one_over)

lemma pow2_pos: "0 < pow2 e"
  by (simp add: pow2_powi)

lemma pow2_add: "pow2 (a + b) = pow2 a * pow2 b"
  by (simp add: pow2_powi power_int_add)

lemma round_even_error: "\<bar>of_int (round_even x) - x\<bar> \<le> 1/2"
proof -
  have "of_int \<lfloor>x\<rfloor> \<le> x" "x < of_int \<lfloor>x\<rfloor> + 1" by linarith+
  then show ?thesis
    by (auto simp: round_even_def Let_def abs_le_iff)
qed

lemma nat_pow_bounds:
  assumes "2 ^ j \<le> (n::nat)" and "n < 2 ^ k"
  shows "(2::rat) ^ j \<le> of_nat n \<and> of_nat n + 1 \<le> (2::rat) ^ k"
proof -
  have "(of_nat (2 ^ j) :: rat) \<le> of_nat n"
    using assms(1) by (simp only: of_nat_le_iff)
  moreover have "Suc n \<le> 2 ^ k" using assms(2) by simp
  then have "(of_nat (Suc n) :: rat) \<le> of_nat (2 ^ k)"
    by (simp only: of_nat_le_iff)
  ultimately show ?thesis by simp
qed

lemma ilog2_bounds:
  assumes "0 < q"
  shows "pow2 (ilog2 q) \<le> q" and "q < pow2 (ilog2 q + 1)"
proof -
  have "pow2 (ilog2 q) \<le> q \<and> q < pow2 (ilog2 q + 1)"
  proof (cases "1 \<le> q")
    case True
    define n where "n = nat \<lfloor>q\<rfloor>"
    define k where "k = floorlog 2 n"
    have n: "0 < n" "of_nat n \<le> q" "q < of_nat n + 1"
      using True by (simp_all add: n_def) linarith+
    have b: "2 ^ (k - 1) \<le> n" "n < 2 ^ k"
      using floorlog_bounds [of n 2] n(1) by (simp_all add: k_def)
    have k: "0 < k" using n(1) by (simp add: k_def floorlog_def)
    have e: "ilog2 q = int k - 1" using True by (simp add: ilog2_def n_def k_def)
    have A: "(2::rat) ^ (k - 1) \<le> of_nat n \<and> of_nat n + 1 \<le> (2::rat) ^ k"
      using nat_pow_bounds [OF b] .
    have P: "pow2 (ilog2 q) = 2 ^ (k - 1)" "pow2 (ilog2 q + 1) = 2 ^ k"
      unfolding e using k by (simp_all add: pow2_def nat_diff_distrib)
    show ?thesis unfolding P using A n(2,3) by linarith
  next
    case False
    define r where "r = 1 / q"
    define n where "n = nat (\<lceil>r\<rceil> - 1)"
    define k where "k = floorlog 2 n"
    have r: "1 < r" using False assms by (simp add: r_def)
    then have c: "2 \<le> \<lceil>r\<rceil>" by linarith
    have n: "0 < n" "of_nat n < r" "r \<le> of_nat n + 1"
      using c by (simp_all add: n_def) linarith+
    have b: "2 ^ (k - 1) \<le> n" "n < 2 ^ k"
      using floorlog_bounds [of n 2] n(1) by (simp_all add: k_def)
    have k: "0 < k" using n(1) by (simp add: k_def floorlog_def)
    have e: "ilog2 q = - int k" using False by (simp add: ilog2_def n_def k_def r_def)
    have A: "(2::rat) ^ (k - 1) \<le> of_nat n \<and> of_nat n + 1 \<le> (2::rat) ^ k"
      using nat_pow_bounds [OF b] .
    have P: "pow2 (ilog2 q) = 1 / 2 ^ k" "pow2 (ilog2 q + 1) = 1 / 2 ^ (k - 1)"
      unfolding e using k by (simp_all add: pow2_def nat_diff_distrib)
    have "r \<le> 2 ^ k" using n(3) A by linarith
    then have 1: "1 / 2 ^ k \<le> 1 / r" using r by (intro divide_left_mono) simp_all
    have "2 ^ (k - 1) < r" using n(2) A by linarith
    then have 2: "1 / r < 1 / 2 ^ (k - 1)"
      using r by (intro divide_strict_left_mono mult_pos_pos) simp_all
    have 3: "1 / r = q" by (simp add: r_def)
    show ?thesis unfolding P using 1 2 3 by linarith
  qed
  then show "pow2 (ilog2 q) \<le> q" and "q < pow2 (ilog2 q + 1)" by simp_all
qed

lemma round_double_error:
  assumes "0 < q"
  shows "\<bar>round_double q - q\<bar> \<le> q / 2 ^ 53"
proof -
  define e where "e = ilog2 q - 52"
  define a where "a = q / pow2 e"
  have rd: "round_double q = of_int (round_even a) * pow2 e"
    using assms by (simp add: round_double_def Let_def e_def a_def)
  have q: "q = a * pow2 e" using pow2_pos [of e] by (simp add: a_def)
  have "round_double q - q = (of_int (round_even a) - a) * pow2 e"
    unfolding rd by (subst q) (simp add: left_diff_distrib)
  then have "\<bar>round_double q - q\<bar> = \<bar>of_int (round_even a) - a\<bar> * pow2 e"
    using pow2_pos [of e] by (simp add: abs_mult)
  also have "\<dots> \<le> 1/2 * pow2 e"
    using round_even_error [of a] pow2_pos [of e] by (intro mult_right_mono) simp_all
  also have "\<dots> = pow2 (ilog2 q) / 2 ^ 53"
  proof -
    have "pow2 (ilog2 q) = pow2 (e + 52)" by (simp add: e_def)
    also have "\<dots> = pow2 e * 2 ^ 52" by (simp add: pow2_add) (simp add: pow2_def)
    finally show ?thesis by simp
  qed
  also have "\<dots> \<le> q / 2 ^ 53"
    using ilog2_bounds(1) [OF assms] by (intro divide_right_mono) simp_all
  finally show ?thesis .
qed

lemma imgPadded_shape:
  assumes "shape img = [h, w, 3]"
  shows "shape (imgPadded img) = [max w h, max w h, 3]"
  using assms by (simp add: imgPadded_def Let_def tf_pad_def shape_tabulate)

lemma imgPadded_elem:
  assumes "shape img = [h, w, 3]" and "i < max w h" "j < max w h" "k < 3"
  shows "elem (imgPadded img) [i, j, k] = (if i < h \<and> j < w then elem img [i, j, k] else 0)"
proof -
  let ?p = "[(0, max w h - h), (0, max w h - w), (0, 0 :: nat)]"
  have u: "imgPadded img = tf_pad img ?p 0"
    using assms(1) by (simp add: imgPadded_def Let_def)
  have sh: "map (\<lambda>(n, lo, hi). lo + n + hi) (zip (shape img) ?p) = [max w h, max w h, 3]"
    using assms(1) by simp
  have v: "valid [max w h, max w h, 3] [i, j, k]" using assms(2-4) by (simp add: valid3)
  show ?thesis
    unfolding u tf_pad_def sh elem_tabulate [OF v]
    using assms(1,4) by simp
qed

lemma preprocess_Inr:
  assumes "fromPixels source = Inr img" and "shape img = [h, w, 3]"
  shows "preprocess fromPixels resizeBilinear source modelWidth modelHeight =
     Inr (tf_expandDims (tf_div (resizeBilinear (imgPadded img) [modelWidth, modelHeight]) 255),
          js_div (max w h) w, js_div (max w h) h)"
  using assms by (simp add: preprocess_def Let_def)

lemma preprocess_Inl:
  "preprocess fromPixels resizeBilinear source modelWidth modelHeight = Inl e \<longleftrightarrow>
   fromPixels source = Inl e"
  by (simp add: preprocess_def Let_def split: sum.splits)

lemma ratio_error:
  assumes "0 < (w::nat)" "0 < (m::nat)"
  shows "\<bar>round_double (of_nat m / of_nat w) * of_nat w - of_nat m\<bar> \<le> of_nat m / 2 ^ 53"
proof -
  define q :: rat where "q = of_nat m / of_nat w"
  have q: "0 < q" using assms by (simp add: q_def)
  have m: "of_nat m = q * of_nat w" using assms by (simp add: q_def)
  have "\<bar>round_double q * of_nat w - of_nat m\<bar> = \<bar>round_double q - q\<bar> * of_nat w"
    unfolding m by (simp add: left_diff_distrib [symmetric] abs_mult)
  also have "\<dots> \<le> q / 2 ^ 53 * of_nat w"
    using round_double_error [OF q] by (intro mult_right_mono) simp_all
  also have "\<dots> = of_nat m / 2 ^ 53" by (simp add: m)
  finally show ?thesis by (simp add: q_def)
qed

lemma round_double_pos:
  assumes "0 < q"
  shows "0 < round_double q"
proof -
  have "q / 2 ^ 53 < q" using assms by (simp add: field_simps)
  with round_double_error [OF assms] show ?thesis by linarith
qed

lemma product_error:
  assumes "0 < (w::nat)" "0 < (m::nat)"
  shows "\<bar>round_double (round_double (of_nat m / of_nat w) * of_nat w) - of_nat m\<bar>
           \<le> 3 * of_nat m / 2 ^ 53"
proof -
  define p :: rat where "p = round_double (of_nat m / of_nat w) * of_nat w"
  have "0 < round_double (of_nat m / of_nat w)"
    using assms by (intro round_double_pos) simp
  then have p: "0 < p" using assms by (simp add: p_def)
  have e1: "\<bar>p - of_nat m\<bar> \<le> of_nat m / 2 ^ 53"
    unfolding p_def by (rule ratio_error [OF assms])
  have e2: "\<bar>round_double p - p\<bar> \<le> p / 2 ^ 53"
    by (rule round_double_error [OF p])
  have "p \<le> of_nat m + of_nat m / 2 ^ 53" using e1 by linarith
  then have "p / 2 ^ 53 \<le> (of_nat m + of_nat m / 2 ^ 53) / 2 ^ 53"
    by (intro divide_right_mono) simp_all
  also have "\<dots> \<le> 2 * of_nat m / 2 ^ 53"
    by (simp add: field_simps)
  finally have e3: "p / 2 ^ 53 \<le> 2 * of_nat m / 2 ^ 53" .
  have "\<bar>round_double p - of_nat m\<bar> \<le> \<bar>round_double p - p\<bar> + \<bar>p - of_nat m\<bar>"
    by linarith
  also have "\<dots> \<le> 2 * of_nat m / 2 ^ 53 + of_nat m / 2 ^ 53"
    using e1 e2 e3 by linarith
  also have "\<dots> = 3 * of_nat m / 2 ^ 53"
    by simp
  finally show ?thesis unfolding p_def .
qed

lemma round_even_int: "round_even (of_int z) = z"
  by (simp add: round_even_def Let_def)

lemma round_double_nat:
  assumes "n < 2 ^ 53"
  shows "round_double (of_nat n) = of_nat n"
proof (cases "n = 0")
  case True
  then show ?thesis by (simp add: round_double_def)
next
  case False
  define k where "k = floorlog 2 n"
  define d where "d = 53 - k"
  have "k \<noteq> 0"
    using False by (simp add: k_def floorlog_eq_zero_iff)
  moreover have "k \<le> 53"
    unfolding k_def using assms by (intro floorlog_leI) simp_all
  ultimately have k: "0 < k" "k \<le> 53" by simp_all
  have "ilog2 (of_nat n) = int k - 1"
    using False by (simp add: ilog2_def k_def)
  then have e: "ilog2 (of_nat n) - 52 = - int d"
    using k by (simp add: d_def)
  have p: "pow2 (- int d) = 1 / 2 ^ d"
    by (simp add: pow2_def)
  have "of_nat n / pow2 (- int d) = (of_int (int (n * 2 ^ d)) :: rat)"
    by (simp add: p)
  then have r: "round_even (of_nat n / pow2 (- int d)) = int (n * 2 ^ d)"
    by (simp only: round_even_int)
  show ?thesis
    using False by (simp add: round_double_def Let_def e r) (simp add: p)
qed

text \<open>
  Claim C2, as the code has it. When \<^verbatim>\<open>fromPixels\<close> returns the pixel tensor \<open>img\<close>
  of an image of width \<open>w > 0\<close> and height \<open>h > 0\<close>, \<^verbatim>\<open>preprocess\<close> returns the
  resized, normalised padded image together with the two ratios. The padded image is a
  square of side \<open>maxSize = max w h\<close> that holds the original at the same indices (so
  the padding is at the bottom and on the right only) and 0 elsewhere. The ratios are the
  doubles nearest to \<open>maxSize / w\<close> and \<open>maxSize / h\<close>. Their exact products with \<open>w\<close>
  and \<open>h\<close> differ from \<open>maxSize\<close> by at most \<open>maxSize / 2\<^sup>5\<^sup>3\<close>, and the products
  that JavaScript computes (rounded once more) by at most \<open>3 * maxSize / 2\<^sup>5\<^sup>3\<close>. The
  ratio of the longer side is exactly 1, its JavaScript product is exactly \<open>maxSize\<close>
  (for sizes below \<open>2\<^sup>5\<^sup>3\<close>), and both ratios are 1 when \<open>w = h\<close>.
\<close>

theorem preprocessor:
  fixes img :: "'a::{zero,inverse,numeral} tensor"
  assumes "fromPixels source = Inr img" and "shape img = [h, w, 3]"
    and "0 < w" and "0 < h"
  shows "case preprocess fromPixels resizeBilinear source modelWidth modelHeight of
           Inl e \<Rightarrow> False
         | Inr (input, xRatio, yRatio) \<Rightarrow>
            let maxSize = max w h in
            input = tf_expandDims
                      (tf_div (resizeBilinear (imgPadded img) [modelWidth, modelHeight]) 255) \<and>
            shape (imgPadded img) = [maxSize, maxSize, 3] \<and>
            (\<forall>i j k. i < maxSize \<and> j < maxSize \<and> k < 3 \<longrightarrow>
               elem (imgPadded img) [i, j, k] =
                 (if i < h \<and> j < w then elem img [i, j, k] else 0)) \<and>
            xRatio = Fin (round_double (of_nat maxSize / of_nat w)) \<and>
            yRatio = Fin (round_double (of_nat maxSize / of_nat h)) \<and>
            \<bar>round_double (of_nat maxSize / of_nat w) * of_nat w - of_nat maxSize\<bar>
               \<le> of_nat maxSize / 2 ^ 53 \<and>
            \<bar>round_double (of_nat maxSize / of_nat h) * of_nat h - of_nat maxSize\<bar>
               \<le> of_nat maxSize / 2 ^ 53 \<and>
            (case js_times xRatio w of
               Fin p \<Rightarrow> \<bar>p - of_nat maxSize\<bar> \<le> 3 * of_nat maxSize / 2 ^ 53
             | _ \<Rightarrow> False) \<and>
            (case js_times yRatio h of
               Fin p \<Rightarrow> \<bar>p - of_nat maxSize\<bar> \<le> 3 * of_nat maxSize / 2 ^ 53
             | _ \<Rightarrow> False) \<and>
            (h \<le> w \<longrightarrow> xRatio = Fin 1) \<and> (w \<le> h \<longrightarrow> yRatio = Fin 1) \<and>
            (w = h \<longrightarrow> xRatio = Fin 1 \<and> yRatio = Fin 1) \<and>
            (maxSize < 2 ^ 53 \<longrightarrow>
               (h \<le> w \<longrightarrow> js_times xRatio w = Fin (of_nat maxSize)) \<and>
               (w \<le> h \<longrightarrow> js_times yRatio h = Fin (of_nat maxSize)))"
proof -
  define m where "m = max w h"
  have m: "0 < m" using assms(3) by (simp add: m_def)
  have x1: "round_double (of_nat m / of_nat w) = 1" if "h \<le> w"
    using that assms(3) by (simp add: m_def max_def round_double_1)
  have y1: "round_double (of_nat m / of_nat h) = 1" if "w \<le> h"
    using that assms(4) by (simp add: m_def max_def round_double_1)
  have px: "round_double (round_double (of_nat m / of_nat w) * of_nat w) = of_nat m"
    if "m < 2 ^ 53" "h \<le> w"
    using that x1 round_double_nat [of w] by (simp add: m_def max_def)
  have py: "round_double (round_double (of_nat m / of_nat h) * of_nat h) = of_nat m"
    if "m < 2 ^ 53" "w \<le> h"
    using that y1 round_double_nat [of h] by (simp add: m_def max_def)
  show ?thesis
    unfolding preprocess_Inr [where fromPixels = fromPixels and source = source, OF assms(1,2)]
      Let_def m_def [symmetric]
    using imgPadded_shape [OF assms(2)] imgPadded_elem [OF assms(2)]
      ratio_error [OF assms(3) m] ratio_error [OF assms(4) m]
      product_error [OF assms(3) m] product_error [OF assms(4) m] x1 y1 px py
    using assms(3,4) by (simp add: js_div_def m_def [symmetric])
qed

text \<open>
  The pixel data 11 wide and 15 high is padded to 15 by 15, with the ratio 1 for its
  height; the square pixel data is not padded and has both ratios 1.
\<close>

theorem preprocessor_witness:
  "accepting_fromPixels example_image = Inr (pixel_tensor example_image) \<and>
   shape (pixel_tensor example_image) = [15, 11, 3] \<and> (0::nat) < 11 \<and> (0::nat) < 15 \<and>
   shape (imgPadded (pixel_tensor example_image)) = [15, 15, 3] \<and>
   map_sum id snd (preprocess accepting_fromPixels example_resize example_image 960 960)
     = Inr (Fin (6141272219141585 / 4503599627370496), Fin 1) \<and>
   js_times (Fin 1) 15 = Fin 15 \<and>
   accepting_fromPixels square_image = Inr (pixel_tensor square_image) \<and>
   shape (pixel_tensor square_image) = [2, 2, 3] \<and>
   shape (imgPadded (pixel_tensor square_image)) = [2, 2, 3] \<and>
   map_sum id snd (preprocess accepting_fromPixels example_resize square_image 960 960)
     = Inr (Fin 1, Fin 1)"
proof -
  have a: "accepting_fromPixels example_image = Inr (pixel_tensor example_image)"
    "accepting_fromPixels square_image = Inr (pixel_tensor square_image)"
    by (simp_all add: accepting_fromPixels_def)
  have s: "shape (pixel_tensor example_image) = [15, 11, 3]"
    "shape (pixel_tensor square_image) = [2, 2, 3]"
    by (simp_all add: pixel_tensor_def example_image_def square_image_def)
  have r: "round_double (15 / 11) = 6141272219141585 / 4503599627370496"
    by code_simp
  note t1 = preprocessor [where fromPixels = accepting_fromPixels and source = example_image
      and resizeBilinear = example_resize and modelWidth = 960 and modelHeight = 960,
      OF a(1) s(1)]
  note t2 = preprocessor [where fromPixels = accepting_fromPixels and source = square_image
      and resizeBilinear = example_resize and modelWidth = 960 and modelHeight = 960,
      OF a(2) s(2)]
  have 1: "shape (imgPadded (pixel_tensor example_image)) = [15, 15, 3] \<and>
     map_sum id snd (preprocess accepting_fromPixels example_resize example_image 960 960)
       = Inr (Fin (6141272219141585 / 4503599627370496), Fin 1) \<and>
     js_times (Fin 1) 15 = Fin 15"
    using t1 r by (auto simp add: Let_def round_double_1 split: sum.splits prod.splits)
  have 2: "shape (imgPadded (pixel_tensor square_image)) = [2, 2, 3] \<and>
     map_sum id snd (preprocess accepting_fromPixels example_resize square_image 960 960)
       = Inr (Fin 1, Fin 1)"
    using t2 by (auto simp add: Let_def round_double_1 split: sum.splits prod.splits)
  show ?thesis using a s 1 2 by simp
qed

text \<open>
  The claim says \<open>xRatio * w = maxSize\<close> exactly. For the pixel data 11 wide and 15 high,
  \<open>xRatio\<close> is the double nearest to \<open>15 / 11\<close>; its product with 11 is not 15,
  neither exactly (\<open>15 - 5 / 2\<^sup>5\<^sup>2\<close>) nor as the rounded product of JavaScript
  (\<open>15 - 1 / 2\<^sup>4\<^sup>9\<close>).
\<close>

theorem preprocessor_ratio_counterexample:
  "accepting_fromPixels example_image = Inr (pixel_tensor example_image) \<and>
   shape (pixel_tensor example_image) = [15, 11, 3] \<and>
   map_sum id snd (preprocess accepting_fromPixels example_resize example_image 960 960)
     = Inr (Fin (6141272219141585 / 4503599627370496), Fin 1) \<and>
   (6141272219141585 / 4503599627370496) * 11 = (15 :: rat) - 5 / 2 ^ 52 \<and>
   (6141272219141585 / 4503599627370496) * 11 \<noteq> (15 :: rat) \<and>
   js_times (Fin (6141272219141585 / 4503599627370496)) 11 = Fin (15 - 1 / 2 ^ 49) \<and>
   js_times (Fin (6141272219141585 / 4503599627370496)) 11 \<noteq> Fin 15"
proof -
  have a: "accepting_fromPixels example_image = Inr (pixel_tensor example_image)"
    by (simp add: accepting_fromPixels_def)
  have s: "shape (pixel_tensor example_image) = [15, 11, 3]"
    by (simp add: pixel_tensor_def example_image_def)
  have r: "round_double (15 / 11) = 6141272219141585 / 4503599627370496"
    "round_double (6141272219141585 / 4503599627370496 * 11) = 15 - 1 / 2 ^ 49"
    by code_simp+
  have "map_sum id snd (preprocess accepting_fromPixels example_resize example_image 960 960)
     = Inr (Fin (6141272219141585 / 4503599627370496), Fin 1)"
    unfolding preprocess_Inr [where fromPixels = accepting_fromPixels and source = example_image,
        OF a s]
    using r(1) by (simp add: js_div_def round_double_1)
  then show ?thesis using a s r(2) by simp
qed

text \<open>
  Claim C8 says that an image of width or height zero is rejected before preprocessing.
  \<^verbatim>\<open>preprocess\<close> has no check of the size: given pixel data of width 0 and height 2,
  whose pixel tensor \<^verbatim>\<open>fromPixels\<close> returns, it pads to 2 by 2, resizes, and returns
  the ratios \<^verbatim>\<open>Infinity\<close> and 1.
\<close>

theorem invalid_geometry_counterexample:
  "width empty_image = 0 \<and>
   accepting_fromPixels empty_image = Inr (pixel_tensor empty_image) \<and>
   shape (imgPadded (pixel_tensor empty_image)) = [2, 2, 3] \<and>
   map_sum id (\<lambda>(input, xRatio, yRatio). (shape input, xRatio, yRatio))
     (preprocess accepting_fromPixels example_resize empty_image 4 4)
     = Inr ([1, 4, 4, 3], Infinity, Fin 1)"
  by code_simp

text \<open>
  Claim C8, as the code has it. \<^verbatim>\<open>preprocess\<close> has no geometry check of its own and
  \<^verbatim>\<open>detect\<close> has none before it: the call fails for an image exactly when
  \<^verbatim>\<open>tf.browser.fromPixels\<close> raises for it, inside \<^verbatim>\<open>preprocess\<close>, with that error.
  Whenever \<^verbatim>\<open>fromPixels\<close> returns the pixel tensor of an image of width or height zero
  (a dimension is never negative), \<^verbatim>\<open>preprocess\<close> pads it to the square of side
  \<open>max w h\<close>, resizes it and returns it, with the ratio \<^verbatim>\<open>Infinity\<close> for a zero side
  next to a positive one (and 1 for the other side) and \<^verbatim>\<open>NaN\<close> for both when both
  sides are zero.
\<close>

theorem zero_sized_image:
  fixes fromPixels :: "'s \<Rightarrow> 'e + 'a::{zero,inverse,numeral} tensor"
  shows "case fromPixels source of
           Inl e \<Rightarrow> preprocess fromPixels resizeBilinear source modelWidth modelHeight = Inl e
         | Inr img \<Rightarrow>
             (\<forall>e. preprocess fromPixels resizeBilinear source modelWidth modelHeight \<noteq> Inl e) \<and>
             (\<forall>h w. shape img = [h, w, 3] \<and> (w = 0 \<or> h = 0) \<longrightarrow>
                shape (imgPadded img) = [max w h, max w h, 3] \<and>
                preprocess fromPixels resizeBilinear source modelWidth modelHeight =
                  Inr (tf_expandDims
                         (tf_div (resizeBilinear (imgPadded img) [modelWidth, modelHeight]) 255),
                       if w = 0 then (if h = 0 then NaN else Infinity) else Fin 1,
                       if h = 0 then (if w = 0 then NaN else Infinity) else Fin 1))"
proof (cases "fromPixels source")
  case (Inl e)
  then show ?thesis by (simp add: preprocess_Inl)
next
  case (Inr img)
  have "preprocess fromPixels resizeBilinear source modelWidth modelHeight \<noteq> Inl e" for e
    using Inr by (simp add: preprocess_Inl)
  moreover have "shape (imgPadded img) = [max w h, max w h, 3] \<and>
      preprocess fromPixels resizeBilinear source modelWidth modelHeight =
        Inr (tf_expandDims
               (tf_div (resizeBilinear (imgPadded img) [modelWidth, modelHeight]) 255),
             if w = 0 then (if h = 0 then NaN else Infinity) else Fin 1,
             if h = 0 then (if w = 0 then NaN else Infinity) else Fin 1)"
    if "shape img = [h, w, 3] \<and> (w = 0 \<or> h = 0)" for h w
    using that imgPadded_shape [of img h w]
      preprocess_Inr [where fromPixels = fromPixels and source = source and h = h and w = w,
        OF Inr]
    by (auto simp add: js_div_def round_double_1)
  ultimately show ?thesis using Inr by simp
qed

text \<open>
  For the pixel data of width 0 and height 2: a \<^verbatim>\<open>fromPixels\<close> that returns its pixel
  tensor, and one that raises for it.
\<close>

theorem zero_sized_image_witness:
  "accepting_fromPixels empty_image = Inr (pixel_tensor empty_image) \<and>
   shape (pixel_tensor empty_image) = [2, 0, 3] \<and>
   shape (imgPadded (pixel_tensor empty_image)) = [2, 2, 3] \<and>
   map_sum id snd (preprocess accepting_fromPixels example_resize empty_image 4 4)
     = Inr (Infinity, Fin 1) \<and>
   rejecting_fromPixels empty_image = Inl ''fromPixels'' \<and>
   preprocess rejecting_fromPixels example_resize empty_image 4 4 = Inl ''fromPixels''"
proof -
  have a: "accepting_fromPixels empty_image = Inr (pixel_tensor empty_image)"
    by (simp add: accepting_fromPixels_def)
  have s: "shape (pixel_tensor empty_image) = [2, 0, 3]"
    by (simp add: pixel_tensor_def empty_image_def)
  have b: "rejecting_fromPixels empty_image = Inl ''fromPixels''"
    by (simp add: rejecting_fromPixels_def empty_image_def)
  have 1: "shape (imgPadded (pixel_tensor empty_image)) = [2, 2, 3] \<and>
     map_sum id snd (preprocess accepting_fromPixels example_resize empty_image 4 4)
       = Inr (Infinity, Fin 1)"
    using zero_sized_image [where fromPixels = accepting_fromPixels and source = empty_image
        and resizeBilinear = example_resize and modelWidth = 4 and modelHeight = 4] s
    by (simp add: a)
  have 2: "preprocess rejecting_fromPixels example_resize empty_image 4 4 = Inl ''fromPixels''"
    using zero_sized_image [where fromPixels = rejecting_fromPixels and source = empty_image
        and resizeBilinear = example_resize and modelWidth = 4 and modelHeight = 4]
    by (simp add: b)
  show ?thesis using a s b 1 2 by simp
qed

subsection \<open>Tensor lifetimes\<close>

lemma alloc_rec:
  "alloc \<lparr>live = l, scopes = s # ss, fresh = n\<rparr> =
     (n, \<lparr>live = n # l, scopes = (n # s) # ss, fresh = Suc n\<rparr>)"
  "alloc \<lparr>live = l, scopes = [], fresh = n\<rparr> = (n, \<lparr>live = n # l, scopes = [], fresh = Suc n\<rparr>)"
  by (simp_all add: alloc_def)

lemma startScope_rec:
  "startScope \<lparr>live = l, scopes = ss, fresh = n\<rparr> = \<lparr>live = l, scopes = [] # ss, fresh = n\<rparr>"
  by (simp add: startScope_def)

lemma endScope_rec:
  "endScope r \<lparr>live = l, scopes = s # p # ps, fresh = n\<rparr> =
     \<lparr>live = filter (\<lambda>t. t \<in> set r \<or> t \<notin> set s) l,
      scopes = (filter (\<lambda>t. t \<in> set r) s @ p) # ps, fresh = n\<rparr>"
  "endScope r \<lparr>live = l, scopes = [s], fresh = n\<rparr> =
     \<lparr>live = filter (\<lambda>t. t \<in> set r \<or> t \<notin> set s) l, scopes = [], fresh = n\<rparr>"
  by (simp_all add: endScope_def)

lemmas engine_eval = alloc_rec startScope_rec endScope_rec tidy_def preprocess_tensors_def
  numeral_eq_Suc

text \<open>
  Claim C7 says that every tensor allocated during one call of \<^verbatim>\<open>detect\<close> is released
  when the call ends. On an engine with three live tensors and no open scope, the call
  leaves ten more tensors alive (the input, the inference result, its transpose, the
  boxes, scores and classes, the suppression indices and the three gathered tensors) and its
  scope open; ending the scope, as the commented-out lines would, restores the live tensors
  of before.
\<close>

theorem detect_keeps_tensors:
  "live example_engine = [2, 1, 0] \<and> scopes example_engine = [] \<and>
   live (detect_tensors example_engine) = [29, 28, 27, 26, 25, 24, 21, 9, 8, 7, 2, 1, 0] \<and>
   length (live (detect_tensors example_engine)) = length (live example_engine) + 10 \<and>
   length (scopes (detect_tensors example_engine)) = 1 \<and>
   live (endScope [] (detect_tensors example_engine)) = live example_engine"
proof -
  have "detect_tensors \<lparr>live = [2, 1, 0], scopes = [], fresh = 3\<rparr> =
     \<lparr>live = [29, 28, 27, 26, 25, 24, 21, 9, 8, 7, 2, 1, 0],
      scopes = [[29, 28, 27, 26, 25, 24, 21, 9, 8, 7]], fresh = 30\<rparr>"
    unfolding detect_tensors_def Let_def by (simp add: engine_eval)
  then show ?thesis
    by (simp add: example_engine_def endScope_rec)
qed

end
